theory Spec2Isabelle
  imports Main "HOL-Library.Word" "HOL-Library.Char_ord" "HOL-Library.List_Lexorder"
begin

section \<open>Go values: byte strings, maps, results\<close>

text \<open>
  A Go \<^verbatim>\<open>string\<close> is a sequence of bytes, here \<^typ>\<open>string\<close>; Go's \<^verbatim>\<open><\<close> on strings is
  the bytewise lexicographic order, which is the order \<open>List_Lexorder\<close> gives to
  \<^typ>\<open>char list\<close> over the byte order of \<open>Char_ord\<close>.

  A Go \<^verbatim>\<open>map[string]string\<close> whose entries are visited by a \<^verbatim>\<open>range\<close> loop is a list of
  its entries in the order that loop visits them: the keys are distinct, the order is
  whatever the runtime picks. \<^verbatim>\<open>m[key]\<close> on a missing key is the zero value \<^verbatim>\<open>""\<close>.
\<close>

type_synonym gomap = "(string \<times> string) list"

definition wf_gomap :: "gomap \<Rightarrow> bool" where
  "wf_gomap m = distinct (map fst m)"

definition index_gomap :: "gomap \<Rightarrow> string \<Rightarrow> string" where
  "index_gomap m key = (case map_of m key of Some v \<Rightarrow> v | None \<Rightarrow> [])"

text \<open>\<^verbatim>\<open>strings.Join(elems, sep)\<close> of Go's standard library.\<close>

fun Join :: "string list \<Rightarrow> string \<Rightarrow> string" where
  "Join [] sep = []"
| "Join [x] sep = x"
| "Join (x # y # ys) sep = x @ sep @ Join (y # ys) sep"

text \<open>uint64 values; \<^verbatim>\<open>a % b\<close> panics at run time when \<^verbatim>\<open>b\<close> is zero.\<close>

type_synonym uint64 = "64 word"

datatype panic =
    IntegerDivideByZero
  | NilPointerDereference
  | LivenessCheckerDisabled
  | AssignmentToEntryInNilMap

section \<open>src/db/types.go: tables and columns\<close>

text \<open>The \<^verbatim>\<open>scanType\<close> of a column (a \<^verbatim>\<open>reflect.Type\<close>) plays no part below and is left out.\<close>

record ColumnInfo =
  ci_name :: string
  ci_escapedName :: string
  ci_databaseTypeName :: string

record TableInfo =
  ti_schema :: string
  ti_name :: string
  ti_columnsByName :: "string \<rightharpoonup> ColumnInfo"
  ti_primaryColumns :: "ColumnInfo list"

section \<open>The journal\<close>

text \<open>
  Modelled from the spec: \<^verbatim>\<open>OrderedMap\<close> (its file is not among the sources), the
  "insertion-ordered mapping" of the journal. \<^verbatim>\<open>Get\<close> looks a key up; \<^verbatim>\<open>Set\<close> replaces the
  value of a key that is present, keeping its place, and appends a new key at the end.
\<close>

type_synonym ('k, 'v) OrderedMap = "('k \<times> 'v) list"

definition NewOrderedMap :: "('k, 'v) OrderedMap" where
  "NewOrderedMap = []"

definition om_Get :: "('k, 'v) OrderedMap \<Rightarrow> 'k \<Rightarrow> 'v option" where
  "om_Get m k = map_of m k"

fun om_Set :: "('k, 'v) OrderedMap \<Rightarrow> 'k \<Rightarrow> 'v \<Rightarrow> ('k, 'v) OrderedMap" where
  "om_Set [] k v = [(k, v)]"
| "om_Set ((k', v') # m) k v = (if k' = k then (k, v) # m else (k', v') # om_Set m k v)"

text \<open>
  Modelled from the spec: \<^verbatim>\<open>Operation\<close> and its constructors \<^verbatim>\<open>newInsertOperation\<close>,
  \<^verbatim>\<open>newUpdateOperation\<close>, \<^verbatim>\<open>newDeleteOperation\<close> and \<^verbatim>\<open>mergeData\<close> (their file is not among
  the sources): the tagged record \<^verbatim>\<open>{kind, table, primaryKey, data, reversibleBlock}\<close>,
  \<^verbatim>\<open>data\<close> empty for a Delete; merging fields is last write wins per field.
\<close>

datatype OperationType = OperationTypeInsert | OperationTypeUpdate | OperationTypeDelete

record Operation =
  opType :: OperationType
  op_table :: TableInfo
  op_primaryKey :: gomap
  op_data :: "string \<rightharpoonup> string"
  op_reversibleBlockNum :: "uint64 option"

definition newInsertOperation ::
  "TableInfo \<Rightarrow> gomap \<Rightarrow> (string \<rightharpoonup> string) \<Rightarrow> uint64 option \<Rightarrow> Operation" where
  "newInsertOperation table primaryKey data reversibleBlockNum =
     \<lparr>opType = OperationTypeInsert, op_table = table, op_primaryKey = primaryKey,
      op_data = data, op_reversibleBlockNum = reversibleBlockNum\<rparr>"

definition newUpdateOperation ::
  "TableInfo \<Rightarrow> gomap \<Rightarrow> (string \<rightharpoonup> string) \<Rightarrow> uint64 option \<Rightarrow> Operation" where
  "newUpdateOperation table primaryKey data reversibleBlockNum =
     \<lparr>opType = OperationTypeUpdate, op_table = table, op_primaryKey = primaryKey,
      op_data = data, op_reversibleBlockNum = reversibleBlockNum\<rparr>"

definition newDeleteOperation :: "TableInfo \<Rightarrow> gomap \<Rightarrow> uint64 option \<Rightarrow> Operation" where
  "newDeleteOperation table primaryKey reversibleBlockNum =
     \<lparr>opType = OperationTypeDelete, op_table = table, op_primaryKey = primaryKey,
      op_data = Map.empty, op_reversibleBlockNum = reversibleBlockNum\<rparr>"

definition mergeData :: "Operation \<Rightarrow> (string \<rightharpoonup> string) \<Rightarrow> Operation" where
  "mergeData op newData = op\<lparr>op_data := op_data op ++ newData\<rparr>"

text \<open>
  Modelled from the spec: the \<^verbatim>\<open>Loader\<close> struct (its declaration is not among the
  sources), reduced to the fields the mutation API reads and writes: the table registry,
  the journal \<^verbatim>\<open>entries\<close> (table, then row id, to the pending operation), the count of
  journal entries, the dialect's \<^verbatim>\<open>OnlyInserts()\<close> flag and the flush interval.
  \<^verbatim>\<open>FlushInterval()\<close> is a \<^verbatim>\<open>time.Duration\<close> (generate\_csv.go passes one to
  \<^verbatim>\<open>NewLoader\<close>), a signed 64-bit integer, kept here as its 64 bits.
\<close>

record Loader =
  tables :: "string \<rightharpoonup> TableInfo"
  entries :: "(string, (string, Operation) OrderedMap) OrderedMap"
  entriesCount :: int
  onlyInserts :: bool
  flushInterval :: "64 word"

datatype error =
    ErrUnknownTable string
  | ErrAlreadyScheduledForInsertion string gomap
  | ErrUpdateNotSupported
  | ErrUpdateNoPrimaryKey string
  | ErrUpdateScheduledToBeDeleted gomap
  | ErrDeleteNotSupported
  | ErrDeleteNoPrimaryKey string
  | ErrSinglePrimaryKeyButNone
  | ErrSinglePrimaryKeyButComposite "string list"
  | ErrTableNotKnown string
  | ErrUnknownPrimaryKeyType
  | ErrDatabaseInsert error
  | ErrDatabaseUpdate error
  | ErrDatabaseDelete error
  | ErrNoBundlerWriter string
  | ErrOnlyAppendOnly
  | ErrWrongOutputModule string string
  | ErrMismatchedMessageType
  | ErrUnmarshal
  | ErrApplyDatabaseChanges error
  | ErrFlush
  | ErrFailedToFlush error
  | ErrGetState
  | ErrSaveState

datatype 'a result = Ok 'a | Error error | Panic panic

section \<open>src/db/types.go: the mutation API of the Loader\<close>

text \<open>
  The functions below are those of the second part of src/db/types.go (the ones that take
  a \<^verbatim>\<open>reversibleBlockNum\<close> and keep the journal in ordered maps). src/db/ops.go holds
  an earlier version of the same methods (no table or dialect checks, row ids made by
  \<^verbatim>\<open>fmt.Sprint\<close>); it is not the one embedded here.

  \<^verbatim>\<open>createRowUniqueID\<close>: a map of one entry gives the value its \<^verbatim>\<open>range\<close> loop visits
  first; otherwise the keys are collected, sorted, and the values joined with a slash.
\<close>

fun createRowUniqueID :: "gomap \<Rightarrow> string" where
  "createRowUniqueID [(k, v)] = v"
| "createRowUniqueID m = Join (map (index_gomap m) (sort (map fst m))) ''/''"

text \<open>
  The reference definition, in the spec's words: the slash-join of the values sorted by
  column for composite keys, the bare value for singletons.
\<close>

definition rowId_spec :: "(string \<rightharpoonup> string) \<Rightarrow> string" where
  "rowId_spec pk =
     (if card (dom pk) = 1 then the (pk (the_elem (dom pk)))
      else Join (map (\<lambda>c. the (pk c)) (sorted_list_of_set (dom pk))) ''/'')"

text \<open>
  \<^verbatim>\<open>GetPrimaryKey\<close>. \<^verbatim>\<open>l.tables[tableName]\<close> of a table that is not registered is a nil
  \<^verbatim>\<open>*TableInfo\<close>, and reading its \<^verbatim>\<open>primaryColumns\<close> panics.
\<close>

definition GetPrimaryKey :: "Loader \<Rightarrow> string \<Rightarrow> string \<Rightarrow> gomap result" where
  "GetPrimaryKey l tableName pk =
     (case tables l tableName of
        None \<Rightarrow> Panic NilPointerDereference
      | Some table \<Rightarrow>
          (case ti_primaryColumns table of
             [] \<Rightarrow> Error ErrSinglePrimaryKeyButNone
           | [c] \<Rightarrow> Ok [(ci_name c, pk)]
           | cols \<Rightarrow> Error (ErrSinglePrimaryKeyButComposite (map ci_name cols))))"

text \<open>
  The three mutators return the error (\<open>None\<close> for \<^verbatim>\<open>nil\<close>) together with the Loader as
  the call leaves it, also when it fails: what a call wrote before it returned an error
  stays written. \<^verbatim>\<open>entry\<close> is a pointer to the per-table map held by \<^verbatim>\<open>l.entries\<close>, so a
  \<^verbatim>\<open>Set\<close> on it is a \<^verbatim>\<open>Set\<close> of the table's slot. The \<^verbatim>\<open>data\<close> map is the fresh, non-nil
  map its caller \<^verbatim>\<open>applyDatabaseChanges\<close> makes. Logging is left out.
\<close>

definition getEntry ::
  "Loader \<Rightarrow> string \<Rightarrow> (string, Operation) OrderedMap \<times> Loader" where
  "getEntry l tableName =
     (case om_Get (entries l) tableName of
        Some entry \<Rightarrow> (entry, l)
      | None \<Rightarrow> (NewOrderedMap, l\<lparr>entries := om_Set (entries l) tableName NewOrderedMap\<rparr>))"

definition setEntry :: "Loader \<Rightarrow> string \<Rightarrow> (string, Operation) OrderedMap \<Rightarrow> Loader" where
  "setEntry l tableName entry = l\<lparr>entries := om_Set (entries l) tableName entry\<rparr>"

fun copyPrimaryKeys ::
  "ColumnInfo list \<Rightarrow> gomap \<Rightarrow> (string \<rightharpoonup> string) \<Rightarrow> (string \<rightharpoonup> string)" where
  "copyPrimaryKeys [] primaryKey data = data"
| "copyPrimaryKeys (primary # rest) primaryKey data =
     copyPrimaryKeys rest primaryKey
       (case map_of primaryKey (ci_name primary) of
          Some dataFromPrimaryKey \<Rightarrow> data(ci_name primary \<mapsto> dataFromPrimaryKey)
        | None \<Rightarrow> data)"

definition Insert ::
  "Loader \<Rightarrow> string \<Rightarrow> gomap \<Rightarrow> (string \<rightharpoonup> string) \<Rightarrow> uint64 option \<Rightarrow> error option \<times> Loader"
  where
  "Insert l tableName primaryKey data reversibleBlockNum =
     (let uniqueID = createRowUniqueID primaryKey in
      case tables l tableName of
        None \<Rightarrow> (Some (ErrUnknownTable tableName), l)
      | Some table \<Rightarrow>
          (case getEntry l tableName of
             (entry, l1) \<Rightarrow>
               (case om_Get entry uniqueID of
                  Some _ \<Rightarrow> (Some (ErrAlreadyScheduledForInsertion tableName primaryKey), l1)
                | None \<Rightarrow>
                    (let data1 = copyPrimaryKeys (ti_primaryColumns table) primaryKey data;
                         entry1 = om_Set entry uniqueID
                           (newInsertOperation table primaryKey data1 reversibleBlockNum);
                         l2 = setEntry l1 tableName entry1
                     in (None, l2\<lparr>entriesCount := entriesCount l2 + 1\<rparr>)))))"

definition Update ::
  "Loader \<Rightarrow> string \<Rightarrow> gomap \<Rightarrow> (string \<rightharpoonup> string) \<Rightarrow> uint64 option \<Rightarrow> error option \<times> Loader"
  where
  "Update l tableName primaryKey data reversibleBlockNum =
     (if onlyInserts l then (Some ErrUpdateNotSupported, l)
      else
        (let uniqueID = createRowUniqueID primaryKey in
         case tables l tableName of
           None \<Rightarrow> (Some (ErrUnknownTable tableName), l)
         | Some table \<Rightarrow>
             if length (ti_primaryColumns table) = 0
             then (Some (ErrUpdateNoPrimaryKey tableName), l)
             else
               (case getEntry l tableName of
                  (entry, l1) \<Rightarrow>
                    (case om_Get entry uniqueID of
                       Some op \<Rightarrow>
                         if opType op = OperationTypeDelete
                         then (Some (ErrUpdateScheduledToBeDeleted primaryKey), l1)
                         else (None, setEntry l1 tableName
                                 (om_Set entry uniqueID (mergeData op data)))
                     | None \<Rightarrow>
                         (let l2 = l1\<lparr>entriesCount := entriesCount l1 + 1\<rparr>
                          in (None, setEntry l2 tableName
                                (om_Set entry uniqueID
                                   (newUpdateOperation table primaryKey data
                                      reversibleBlockNum))))))))"

definition Delete ::
  "Loader \<Rightarrow> string \<Rightarrow> gomap \<Rightarrow> uint64 option \<Rightarrow> error option \<times> Loader" where
  "Delete l tableName primaryKey reversibleBlockNum =
     (if onlyInserts l then (Some ErrDeleteNotSupported, l)
      else
        (let uniqueID = createRowUniqueID primaryKey in
         case tables l tableName of
           None \<Rightarrow> (Some (ErrUnknownTable tableName), l)
         | Some table \<Rightarrow>
             if length (ti_primaryColumns table) \<noteq> 1
             then (Some (ErrDeleteNoPrimaryKey tableName), l)
             else
               (case getEntry l tableName of
                  (entry, l1) \<Rightarrow>
                    (let l2 = (case om_Get entry uniqueID of
                                 None \<Rightarrow> l1\<lparr>entriesCount := entriesCount l1 + 1\<rparr>
                               | Some _ \<Rightarrow> l1)
                     in (None, setEntry l2 tableName
                           (om_Set entry uniqueID
                              (newDeleteOperation table primaryKey reversibleBlockNum)))))))"

text \<open>The pending operation of a row, and all pending operations in flush order.\<close>

definition journalGet :: "Loader \<Rightarrow> string \<Rightarrow> string \<Rightarrow> Operation option" where
  "journalGet l tableName uniqueID =
     (case om_Get (entries l) tableName of
        None \<Rightarrow> None
      | Some entry \<Rightarrow> om_Get entry uniqueID)"

definition journalOps :: "Loader \<Rightarrow> Operation list" where
  "journalOps l = concat (map (\<lambda>(tableName, entry). map snd entry) (entries l))"

definition journalKeys :: "Loader \<Rightarrow> (string \<times> string list) list" where
  "journalKeys l = map (\<lambda>(tableName, entry). (tableName, map fst entry)) (entries l)"

text \<open>
  The pending operations with their table and row id, in flush order, and what an
  \<^verbatim>\<open>OrderedMap\<close> guarantees by construction: a table has one sub-journal and a row id one
  pending operation.
\<close>

definition journalRows :: "Loader \<Rightarrow> (string \<times> string \<times> Operation) list" where
  "journalRows l =
     concat (map (\<lambda>(tableName, entry). map (\<lambda>(uniqueID, op). (tableName, uniqueID, op)) entry)
       (entries l))"

definition wf_journal :: "Loader \<Rightarrow> bool" where
  "wf_journal l =
     (distinct (map fst (entries l)) \<and>
      (\<forall>(tableName, entry) \<in> set (entries l). distinct (map fst entry)))"

text \<open>
  Modelled from the spec: \<^verbatim>\<open>HasTable\<close> (its file is not among the sources), the check
  that a table is registered, which the comments of the mutators refer to.
\<close>

definition HasTable :: "Loader \<Rightarrow> string \<Rightarrow> bool" where
  "HasTable l tableName = (tables l tableName \<noteq> None)"

section \<open>The DatabaseChanges payload\<close>

text \<open>
  Modelled from the spec: the protobuf messages of the external package
  \<^verbatim>\<open>pbdatabase\<close>, as section 6 of the spec gives them. A \<^verbatim>\<open>TableChange\<close> whose
  \<^verbatim>\<open>PrimaryKey\<close> oneof is not set is \<open>TableChange_NoPrimaryKey\<close>.
\<close>

datatype TableChange_Operation =
    TableChange_UNSET
  | TableChange_CREATE
  | TableChange_UPDATE
  | TableChange_DELETE

datatype TableChange_PrimaryKey =
    TableChange_Pk string
  | TableChange_CompositePk gomap
  | TableChange_NoPrimaryKey

record Field =
  field_Name :: string
  field_NewValue :: string
  field_OldValue :: string

record TableChange =
  change_Table :: string
  change_PrimaryKey :: TableChange_PrimaryKey
  change_Operation :: TableChange_Operation
  change_Fields :: "Field list"

text \<open>
  A block of the stream as the handlers read it: \<open>data_MessageIs\<close> is
  \<^verbatim>\<open>mapOutput.MessageIs(dbChanges)\<close>, \<open>data_Unmarshal\<close> what \<^verbatim>\<open>proto.Unmarshal\<close> makes of
  \<^verbatim>\<open>mapOutput.Value\<close> (\<open>None\<close> when it fails). Of the cursor only the block number is read.
\<close>

record BlockScopedData =
  data_OutputName :: string
  data_MessageIs :: bool
  data_TypeUrl :: string
  data_Unmarshal :: "TableChange list option"
  data_ClockNumber :: uint64
  data_FinalBlockHeight :: uint64

record Cursor =
  cursor_token :: string
  cursor_BlockNum :: uint64

definition go_mod :: "uint64 \<Rightarrow> uint64 \<Rightarrow> uint64 result" where
  "go_mod a b = (if b = 0 then Panic IntegerDivideByZero else Ok (a mod b))"

text \<open>The type switch on \<^verbatim>\<open>change.PrimaryKey\<close>, the same in both sinkers.\<close>

definition resolvePrimaryKey :: "Loader \<Rightarrow> TableChange \<Rightarrow> gomap result" where
  "resolvePrimaryKey l change =
     (case change_PrimaryKey change of
        TableChange_Pk pk \<Rightarrow> GetPrimaryKey l (change_Table change) pk
      | TableChange_CompositePk keys \<Rightarrow> Ok keys
      | TableChange_NoPrimaryKey \<Rightarrow> Error ErrUnknownPrimaryKeyType)"

text \<open>The loop \<^verbatim>\<open>m[field.Name] = field.NewValue\<close> over the fields of a change.\<close>

fun setFields :: "(string \<rightharpoonup> string) \<Rightarrow> Field list \<Rightarrow> (string \<rightharpoonup> string)" where
  "setFields m [] = m"
| "setFields m (field # rest) = setFields (m(field_Name field \<mapsto> field_NewValue field)) rest"

section \<open>src/unnamed/part\_000: the SQL sinker\<close>

definition HISTORICAL_BLOCK_FLUSH_EACH :: uint64 where
  "HISTORICAL_BLOCK_FLUSH_EACH = 1000"

definition LIVE_BLOCK_FLUSH_EACH :: uint64 where
  "LIVE_BLOCK_FLUSH_EACH = 1"

fun applyDatabaseChanges ::
  "Loader \<Rightarrow> TableChange list \<Rightarrow> uint64 \<Rightarrow> uint64 \<Rightarrow> unit result \<times> Loader" where
  "applyDatabaseChanges l [] blockNum finalBlockNum = (Ok (), l)"
| "applyDatabaseChanges l (change # rest) blockNum finalBlockNum =
     (if \<not> HasTable l (change_Table change)
      then (Error (ErrTableNotKnown (change_Table change)), l)
      else
        (case resolvePrimaryKey l change of
           Error err \<Rightarrow> (Error err, l)
         | Panic p \<Rightarrow> (Panic p, l)
         | Ok primaryKeys \<Rightarrow>
             (let changes = setFields Map.empty (change_Fields change);
                  reversibleBlockNum =
                    (if blockNum > finalBlockNum then Some blockNum else None)
              in case change_Operation change of
                   TableChange_CREATE \<Rightarrow>
                     (case Insert l (change_Table change) primaryKeys changes
                             reversibleBlockNum of
                        (Some err, l') \<Rightarrow> (Error (ErrDatabaseInsert err), l')
                      | (None, l') \<Rightarrow> applyDatabaseChanges l' rest blockNum finalBlockNum)
                 | TableChange_UPDATE \<Rightarrow>
                     (case Update l (change_Table change) primaryKeys changes
                             reversibleBlockNum of
                        (Some err, l') \<Rightarrow> (Error (ErrDatabaseUpdate err), l')
                      | (None, l') \<Rightarrow> applyDatabaseChanges l' rest blockNum finalBlockNum)
                 | TableChange_DELETE \<Rightarrow>
                     (case Delete l (change_Table change) primaryKeys reversibleBlockNum of
                        (Some err, l') \<Rightarrow> (Error (ErrDatabaseDelete err), l')
                      | (None, l') \<Rightarrow> applyDatabaseChanges l' rest blockNum finalBlockNum)
                 | TableChange_UNSET \<Rightarrow>
                     applyDatabaseChanges l rest blockNum finalBlockNum)))"

definition batchBlockModulo :: "Loader \<Rightarrow> bool option \<Rightarrow> uint64 result" where
  "batchBlockModulo l isLive =
     (case isLive of
        None \<Rightarrow> Panic LivenessCheckerDisabled
      | Some live \<Rightarrow>
          if live then Ok LIVE_BLOCK_FLUSH_EACH
          else if 0 <s flushInterval l then Ok (flushInterval l)
          else Ok HISTORICAL_BLOCK_FLUSH_EACH)"

text \<open>
  Modelled from the spec: \<^verbatim>\<open>Loader.Flush\<close> (its file is not among the sources). Each call
  opens one transaction against the database, carrying the pending operations in journal
  order and the cursor; \<open>sql_transactions\<close> lists the transactions opened so far and
  \<open>sql_commits\<close> is the database's answer to one. On success the journal is cleared and
  the count reset; on failure the journal is left as it was. Metrics and statistics are
  left out.
\<close>

record FlushCall =
  flush_ModuleHash :: string
  flush_Cursor :: Cursor
  flush_FinalBlock :: uint64
  flush_Operations :: "Operation list"

record SQLSinker =
  sql_loader :: Loader
  sql_OutputModuleName :: string
  sql_OutputModuleHash :: string
  sql_transactions :: "FlushCall list"
  sql_commits :: "FlushCall \<Rightarrow> bool"

definition Flush :: "SQLSinker \<Rightarrow> Cursor \<Rightarrow> uint64 \<Rightarrow> int result \<times> SQLSinker" where
  "Flush s cursor finalBlock =
     (let call = \<lparr>flush_ModuleHash = sql_OutputModuleHash s, flush_Cursor = cursor,
                  flush_FinalBlock = finalBlock,
                  flush_Operations = journalOps (sql_loader s)\<rparr>;
          s1 = s\<lparr>sql_transactions := sql_transactions s @ [call]\<rparr>
      in if sql_commits s call
         then (Ok (entriesCount (sql_loader s)),
               s1\<lparr>sql_loader := (sql_loader s)\<lparr>entries := NewOrderedMap, entriesCount := 0\<rparr>\<rparr>)
         else (Error ErrFlush, s1))"

definition HandleBlockScopedData ::
  "SQLSinker \<Rightarrow> BlockScopedData \<Rightarrow> bool option \<Rightarrow> Cursor \<Rightarrow> unit result \<times> SQLSinker" where
  "HandleBlockScopedData s data isLive cursor =
     (if data_OutputName data \<noteq> sql_OutputModuleName s
      then (Error (ErrWrongOutputModule (sql_OutputModuleName s) (data_OutputName data)), s)
      else if \<not> data_MessageIs data \<and>
              data_TypeUrl data \<noteq> ''type.googleapis.com/sf.substreams.database.v1.DatabaseChanges''
      then (Error ErrMismatchedMessageType, s)
      else
        (case data_Unmarshal data of
           None \<Rightarrow> (Error ErrUnmarshal, s)
         | Some dbChanges \<Rightarrow>
             (case applyDatabaseChanges (sql_loader s) dbChanges
                     (data_ClockNumber data) (data_FinalBlockHeight data) of
                (Error err, l1) \<Rightarrow> (Error (ErrApplyDatabaseChanges err), s\<lparr>sql_loader := l1\<rparr>)
              | (Panic p, l1) \<Rightarrow> (Panic p, s\<lparr>sql_loader := l1\<rparr>)
              | (Ok _, l1) \<Rightarrow>
                  (let s1 = s\<lparr>sql_loader := l1\<rparr> in
                   case batchBlockModulo l1 isLive of
                     Panic p \<Rightarrow> (Panic p, s1)
                   | Error err \<Rightarrow> (Error err, s1)
                   | Ok blockModulo \<Rightarrow>
                       (case go_mod (data_ClockNumber data) blockModulo of
                          Panic p \<Rightarrow> (Panic p, s1)
                        | Error err \<Rightarrow> (Error err, s1)
                        | Ok r \<Rightarrow>
                            if r = 0
                            then (case Flush s1 cursor (data_FinalBlockHeight data) of
                                    (Ok rowFlushedCount, s2) \<Rightarrow> (Ok (), s2)
                                  | (Error err, s2) \<Rightarrow> (Error (ErrFailedToFlush err), s2)
                                  | (Panic p, s2) \<Rightarrow> (Panic p, s2))
                            else (Ok (), s1))))))"

section \<open>src/sinker/bulk\_sinker.go: the CSV sinker\<close>

text \<open>
  Modelled from the spec: the \<^verbatim>\<open>bundler\<close> and \<^verbatim>\<open>state\<close> packages (not among the sources).
  Of a bundler the sinker reads and writes \<^verbatim>\<open>Header\<close> and \<^verbatim>\<open>HeaderWritten\<close> and hands byte
  strings to \<^verbatim>\<open>Writer().Write\<close>, which appends them to the file of the current boundary:
  \<open>bundler_written\<close> lists them in order. The state store keeps the cursor set last and the
  cursor saved last; \<^verbatim>\<open>GetState\<close> and \<^verbatim>\<open>Save\<close> may fail. \<^verbatim>\<open>bundler.CSVEncode\<close> is a parameter
  of the functions below (the sinker drops its error). Rolling the bundlers runs
  \<^verbatim>\<open>Roll\<close> on concurrent goroutines and returns nothing to the handler; it is left out, as
  are \<^verbatim>\<open>Shutdown\<close> and logging.
\<close>

record Bundler =
  bundler_Header :: string
  bundler_HeaderWritten :: bool
  bundler_written :: "string list"

record BulkSinker =
  bulk_loader :: Loader
  bulk_OutputModuleName :: string
  fileBundlers :: "string \<rightharpoonup> Bundler"
  bundleSize :: uint64
  stateStore_cursor :: "Cursor option"
  stateStore_saved :: "Cursor option"
  stateStore_GetStateFails :: bool
  stateStore_SaveFails :: bool

text \<open>
  In the \<^verbatim>\<open>CREATE\<close> case the fields are assigned into the map of the primary key. For
  a \<^verbatim>\<open>Pk\<close> that map is the fresh one of \<^verbatim>\<open>GetPrimaryKey\<close>. For a \<^verbatim>\<open>CompositePk\<close> it is
  the payload's own \<^verbatim>\<open>Keys\<close>, and a \<^verbatim>\<open>Keys\<close> without entries is Go's nil map
  (\<^verbatim>\<open>proto.Unmarshal\<close> makes the map when it decodes the first entry): the first
  \<^verbatim>\<open>fields[field.Name] = field.NewValue\<close> then panics with "assignment to entry in nil
  map". Reading a nil map, as the SQL sinker and the Loader do, is harmless.
\<close>

fun dumpDatabaseChangesIntoCSV ::
  "((string \<rightharpoonup> string) \<Rightarrow> string) \<Rightarrow> BulkSinker \<Rightarrow> TableChange list \<Rightarrow>
     unit result \<times> BulkSinker" where
  "dumpDatabaseChangesIntoCSV CSVEncode s [] = (Ok (), s)"
| "dumpDatabaseChangesIntoCSV CSVEncode s (change # rest) =
     (if \<not> HasTable (bulk_loader s) (change_Table change)
      then (Error (ErrTableNotKnown (change_Table change)), s)
      else
        (case resolvePrimaryKey (bulk_loader s) change of
           Error err \<Rightarrow> (Error err, s)
         | Panic p \<Rightarrow> (Panic p, s)
         | Ok csvFields \<Rightarrow>
             (case fileBundlers s (change_Table change) of
                None \<Rightarrow> (Error (ErrNoBundlerWriter (change_Table change)), s)
              | Some tableBundler \<Rightarrow>
                  (case change_Operation change of
                     TableChange_CREATE \<Rightarrow>
                       if csvFields = [] \<and> change_Fields change \<noteq> []
                       then (Panic AssignmentToEntryInNilMap, s)
                       else
                       (let csvFields1 = setFields (map_of csvFields) (change_Fields change);
                            data = CSVEncode csvFields1;
                            b1 = (if \<not> bundler_HeaderWritten tableBundler
                                  then tableBundler
                                         \<lparr>bundler_written :=
                                            bundler_written tableBundler
                                              @ [bundler_Header tableBundler],
                                          bundler_HeaderWritten := True\<rparr>
                                  else tableBundler);
                            b2 = b1\<lparr>bundler_written := bundler_written b1 @ [data]\<rparr>
                        in dumpDatabaseChangesIntoCSV CSVEncode
                             (s\<lparr>fileBundlers := (fileBundlers s)(change_Table change \<mapsto> b2)\<rparr>)
                             rest)
                   | TableChange_UPDATE \<Rightarrow> dumpDatabaseChangesIntoCSV CSVEncode s rest
                   | TableChange_DELETE \<Rightarrow> dumpDatabaseChangesIntoCSV CSVEncode s rest
                   | TableChange_UNSET \<Rightarrow> (Error ErrOnlyAppendOnly, s)))))"

definition BulkSinker_HandleBlockScopedData ::
  "((string \<rightharpoonup> string) \<Rightarrow> string) \<Rightarrow> BulkSinker \<Rightarrow> BlockScopedData \<Rightarrow> bool option \<Rightarrow>
     Cursor \<Rightarrow> unit result \<times> BulkSinker" where
  "BulkSinker_HandleBlockScopedData CSVEncode s data isLive cursor =
     (if data_OutputName data \<noteq> bulk_OutputModuleName s
      then (Error (ErrWrongOutputModule (bulk_OutputModuleName s) (data_OutputName data)), s)
      else if \<not> data_MessageIs data \<and>
              data_TypeUrl data \<noteq> ''type.googleapis.com/sf.substreams.database.v1.DatabaseChanges''
      then (Error ErrMismatchedMessageType, s)
      else
        (case data_Unmarshal data of
           None \<Rightarrow> (Error ErrUnmarshal, s)
         | Some dbChanges \<Rightarrow>
             (case dumpDatabaseChangesIntoCSV CSVEncode s dbChanges of
                (Error err, s1) \<Rightarrow> (Error (ErrApplyDatabaseChanges err), s1)
              | (Panic p, s1) \<Rightarrow> (Panic p, s1)
              | (Ok _, s1) \<Rightarrow>
                  (case go_mod (cursor_BlockNum cursor) (bundleSize s1) of
                     Panic p \<Rightarrow> (Panic p, s1)
                   | Error err \<Rightarrow> (Error err, s1)
                   | Ok r \<Rightarrow>
                       if r = 0
                       then (let s2 = s1\<lparr>stateStore_cursor := Some cursor\<rparr> in
                             if stateStore_GetStateFails s2 then (Error ErrGetState, s2)
                             else if stateStore_SaveFails s2 then (Error ErrSaveState, s2)
                             else (Ok (), s2\<lparr>stateStore_saved := stateStore_cursor s2\<rparr>))
                       else (Ok (), s1)))))"

section \<open>Concrete inputs\<close>

text \<open>
  A registry of one table \<^verbatim>\<open>users\<close> with the primary column \<^verbatim>\<open>id\<close> and a column
  \<^verbatim>\<open>name\<close>, an empty journal, and changes against it.
\<close>

definition ex_id :: ColumnInfo where
  "ex_id = \<lparr>ci_name = ''id'', ci_escapedName = ''id'', ci_databaseTypeName = ''text''\<rparr>"

definition ex_name :: ColumnInfo where
  "ex_name = \<lparr>ci_name = ''name'', ci_escapedName = ''name'', ci_databaseTypeName = ''text''\<rparr>"

definition ex_users :: TableInfo where
  "ex_users = \<lparr>ti_schema = ''public'', ti_name = ''users'',
     ti_columnsByName = [''id'' \<mapsto> ex_id, ''name'' \<mapsto> ex_name],
     ti_primaryColumns = [ex_id]\<rparr>"

definition ex_loader :: Loader where
  "ex_loader = \<lparr>tables = [''users'' \<mapsto> ex_users], entries = [], entriesCount = 0,
     onlyInserts = False, flushInterval = 10\<rparr>"

definition ex_pk :: gomap where
  "ex_pk = [(''id'', ''42'')]"

definition ex_change :: "TableChange_Operation \<Rightarrow> TableChange" where
  "ex_change operation =
     \<lparr>change_Table = ''users'', change_PrimaryKey = TableChange_Pk ''42'',
      change_Operation = operation,
      change_Fields = [\<lparr>field_Name = ''name'', field_NewValue = ''Ada'', field_OldValue = []\<rparr>]\<rparr>"

definition ex_data :: "TableChange list \<Rightarrow> uint64 \<Rightarrow> uint64 \<Rightarrow> BlockScopedData" where
  "ex_data changes blockNum finalBlockNum =
     \<lparr>data_OutputName = ''db_out'', data_MessageIs = True,
      data_TypeUrl = ''type.googleapis.com/sf.substreams.sink.database.v1.DatabaseChanges'',
      data_Unmarshal = Some changes, data_ClockNumber = blockNum,
      data_FinalBlockHeight = finalBlockNum\<rparr>"

definition ex_cursor :: "uint64 \<Rightarrow> Cursor" where
  "ex_cursor blockNum = \<lparr>cursor_token = ''c'', cursor_BlockNum = blockNum\<rparr>"

definition ex_sql :: SQLSinker where
  "ex_sql = \<lparr>sql_loader = ex_loader, sql_OutputModuleName = ''db_out'',
     sql_OutputModuleHash = ''hash'', sql_transactions = [], sql_commits = (\<lambda>call. True)\<rparr>"

definition ex_bulk :: "uint64 \<Rightarrow> BulkSinker" where
  "ex_bulk n =
     \<lparr>bulk_loader = ex_loader, bulk_OutputModuleName = ''db_out'',
      fileBundlers = [''users'' \<mapsto>
        \<lparr>bundler_Header = ''id,name'', bundler_HeaderWritten = False, bundler_written = []\<rparr>],
      bundleSize = n, stateStore_cursor = None, stateStore_saved = None,
      stateStore_GetStateFails = False, stateStore_SaveFails = False\<rparr>"

definition ex_loader_inserted :: Loader where
  "ex_loader_inserted = snd (Insert ex_loader ''users'' ex_pk Map.empty None)"

definition ex_loader_deleted :: Loader where
  "ex_loader_deleted = snd (Delete ex_loader_inserted ''users'' ex_pk None)"

definition ex_loader_insert_only :: Loader where
  "ex_loader_insert_only =
     snd (Insert (ex_loader\<lparr>onlyInserts := True\<rparr>) ''users'' ex_pk Map.empty None)"

text \<open>A stand-in for \<^verbatim>\<open>bundler.CSVEncode\<close> on the two columns of \<^verbatim>\<open>users\<close>.\<close>

definition ex_CSVEncode :: "(string \<rightharpoonup> string) \<Rightarrow> string" where
  "ex_CSVEncode m =
     Join (map (\<lambda>c. case m c of Some v \<Rightarrow> v | None \<Rightarrow> []) [''id'', ''name'']) '',''"

section \<open>Facts about the journal and the mutators\<close>

lemmas loader_defs = Insert_def Update_def Delete_def getEntry_def setEntry_def om_Get_def
  NewOrderedMap_def newInsertOperation_def newUpdateOperation_def newDeleteOperation_def
  mergeData_def journalGet_def journalOps_def journalKeys_def journalRows_def wf_journal_def
  GetPrimaryKey_def HasTable_def
  resolvePrimaryKey_def index_gomap_def Let_def

lemmas sinker_defs = HandleBlockScopedData_def BulkSinker_HandleBlockScopedData_def
  batchBlockModulo_def go_mod_def Flush_def word_sless_alt
  HISTORICAL_BLOCK_FLUSH_EACH_def LIVE_BLOCK_FLUSH_EACH_def

lemmas ex_defs = ex_id_def ex_name_def ex_users_def ex_loader_def ex_pk_def ex_change_def
  ex_data_def ex_cursor_def ex_sql_def ex_bulk_def ex_loader_inserted_def
  ex_loader_deleted_def ex_loader_insert_only_def ex_CSVEncode_def

subsection \<open>Row ids\<close>

lemma sorted_keys_eq:
  "distinct (map fst m) \<Longrightarrow> sort (map fst m) = sorted_list_of_set (dom (map_of m))"
proof -
  assume d: "distinct (map fst m)"
  have "sorted_list_of_set (dom (map_of m)) = sorted_list_of_set (set (map fst m))"
    by (simp add: dom_map_of_conv_image_fst)
  also have "\<dots> = sort (remdups (map fst m))"
    by (rule sorted_list_of_set_sort_remdups)
  also have "\<dots> = sort (map fst m)"
    using d by (simp add: distinct_remdups_id)
  finally show ?thesis by simp
qed

lemma createRowUniqueID_Join:
  "createRowUniqueID m = Join (map (index_gomap m) (sort (map fst m))) ''/''"
proof (cases m rule: createRowUniqueID.cases)
  case (1 k v)
  then show ?thesis by (simp add: index_gomap_def)
qed simp_all

lemma createRowUniqueID_spec:
  assumes "distinct (map fst m)"
  shows "createRowUniqueID m = rowId_spec (map_of m)"
proof -
  have keys: "sort (map fst m) = sorted_list_of_set (dom (map_of m))"
    using assms by (rule sorted_keys_eq)
  have vals: "map (index_gomap m) (sorted_list_of_set (dom (map_of m)))
      = map (\<lambda>c. the (map_of m c)) (sorted_list_of_set (dom (map_of m)))"
    by (rule map_cong) (auto simp: index_gomap_def finite_dom_map_of split: option.splits)
  have J: "createRowUniqueID m = Join (map (\<lambda>c. the (map_of m c)) (sorted_list_of_set (dom (map_of m)))) ''/''"
    by (simp add: createRowUniqueID_Join keys vals)
  show ?thesis
  proof (cases "card (dom (map_of m)) = 1")
    case True
    then obtain k where k: "dom (map_of m) = {k}" by (auto simp: card_1_singleton_iff)
    then show ?thesis using True by (simp add: J rowId_spec_def)
  next
    case False
    then show ?thesis by (simp add: J rowId_spec_def)
  qed
qed

subsection \<open>Ordered maps and the per-table entry\<close>

lemma om_Get_om_Set: "om_Get (om_Set m k v) k' = (if k' = k then Some v else om_Get m k')"
  by (induction m) (auto simp: om_Get_def)

lemma om_Set_keys_present:
  "om_Get m k = Some v0 \<Longrightarrow> map fst (om_Set m k v) = map fst m"
  by (induction m) (auto simp: om_Get_def split: if_splits)

lemma getEntry_found:
  "om_Get (entries l) t = Some entry \<Longrightarrow> getEntry l t = (entry, l)"
  by (simp add: getEntry_def)

lemma getEntry_fst_empty_or_same:
  "getEntry l t = (entry, l1) \<Longrightarrow> om_Get entry k = Some v \<Longrightarrow> l1 = l"
  by (auto simp: getEntry_def NewOrderedMap_def om_Get_def split: option.splits)

lemma getEntry_lookup:
  "getEntry l t = (entry, l1) \<Longrightarrow> om_Get entry k = journalGet l t k"
  by (auto simp: getEntry_def journalGet_def NewOrderedMap_def om_Get_def split: option.splits)

lemma getEntry_fields:
  "getEntry l t = (entry, l1) \<Longrightarrow>
     tables l1 = tables l \<and> entriesCount l1 = entriesCount l \<and> onlyInserts l1 = onlyInserts l"
  by (auto simp: getEntry_def split: option.splits)

subsection \<open>What a mutator returns and leaves behind\<close>

lemma Insert_error_unchanged: "Insert l t pk d rb = (Some e, l') \<Longrightarrow> l' = l"
  by (auto simp: Insert_def Let_def split: option.splits prod.splits dest: getEntry_fst_empty_or_same)

lemma Update_error_unchanged: "Update l t pk d rb = (Some e, l') \<Longrightarrow> l' = l"
  by (auto simp: Update_def Let_def split: option.splits prod.splits if_splits dest: getEntry_fst_empty_or_same)

lemma Delete_error_unchanged: "Delete l t pk rb = (Some e, l') \<Longrightarrow> l' = l"
  by (auto simp: Delete_def Let_def split: option.splits prod.splits if_splits dest: getEntry_fst_empty_or_same)

lemma journalGet_setEntry:
  "journalGet (setEntry l t e) t' k = (if t' = t then om_Get e k else journalGet l t' k)"
  by (simp add: journalGet_def setEntry_def om_Get_om_Set)

lemma journalGet_entriesCount [simp]:
  "journalGet (l\<lparr>entriesCount := n\<rparr>) t k = journalGet l t k"
  by (simp add: journalGet_def)

lemma setEntry_fields [simp]:
  "tables (setEntry l t e) = tables l"
  "entriesCount (setEntry l t e) = entriesCount l"
  "onlyInserts (setEntry l t e) = onlyInserts l"
  by (simp_all add: setEntry_def)

lemma om_Set_shape:
  "om_Get m t = Some entry \<Longrightarrow> map fst entry' = map fst entry \<Longrightarrow>
     map (\<lambda>(tableName, entry). (tableName, map fst entry)) (om_Set m t entry')
       = map (\<lambda>(tableName, entry). (tableName, map fst entry)) m"
  by (induction m) (auto simp: om_Get_def split: if_splits)

lemma Insert_success:
  assumes "Insert l t pk d rb = (None, l')"
  shows "\<exists>table. tables l t = Some table \<and>
           journalGet l t (createRowUniqueID pk) = None \<and>
           journalGet l' t (createRowUniqueID pk) =
             Some (newInsertOperation table pk (copyPrimaryKeys (ti_primaryColumns table) pk d) rb) \<and>
           tables l' = tables l \<and> onlyInserts l' = onlyInserts l \<and>
           entriesCount l' = entriesCount l + 1"
proof -
  obtain table where t: "tables l t = Some table"
    using assms by (auto simp: Insert_def Let_def split: option.splits)
  obtain entry l1 where g: "getEntry l t = (entry, l1)" by (cases "getEntry l t")
  have n: "om_Get entry (createRowUniqueID pk) = None"
    using assms t g by (auto simp: Insert_def Let_def split: option.splits)
  have l': "l' = (setEntry l1 t (om_Set entry (createRowUniqueID pk)
       (newInsertOperation table pk (copyPrimaryKeys (ti_primaryColumns table) pk d) rb)))
       \<lparr>entriesCount := entriesCount l1 + 1\<rparr>"
    using assms t g n by (simp add: Insert_def Let_def)
  show ?thesis
    using t n getEntry_lookup [OF g] getEntry_fields [OF g]
    by (simp add: l' journalGet_setEntry om_Get_om_Set)
qed

lemma Delete_success:
  assumes "Delete l t pk rb = (None, l')"
  shows "\<exists>table. tables l t = Some table \<and>
           journalGet l' t (createRowUniqueID pk) = Some (newDeleteOperation table pk rb) \<and>
           tables l' = tables l \<and> onlyInserts l' = onlyInserts l \<and>
           entriesCount l' =
             (if journalGet l t (createRowUniqueID pk) = None then entriesCount l + 1
              else entriesCount l) \<and>
           (journalGet l t (createRowUniqueID pk) \<noteq> None \<longrightarrow> journalKeys l' = journalKeys l)"
proof -
  have oi: "\<not> onlyInserts l" using assms by (auto simp: Delete_def split: if_splits)
  obtain table where t: "tables l t = Some table"
    using assms oi by (auto simp: Delete_def Let_def split: option.splits)
  have one: "length (ti_primaryColumns table) = 1"
    using assms oi t by (auto simp: Delete_def Let_def split: if_splits)
  obtain entry l1 where g: "getEntry l t = (entry, l1)" by (cases "getEntry l t")
  have l': "l' = setEntry
      (case om_Get entry (createRowUniqueID pk) of
         None \<Rightarrow> l1\<lparr>entriesCount := entriesCount l1 + 1\<rparr> | Some _ \<Rightarrow> l1) t
      (om_Set entry (createRowUniqueID pk) (newDeleteOperation table pk rb))"
    using assms oi t one g by (simp add: Delete_def Let_def)
  have shape: "journalKeys l' = journalKeys l"
    if j0: "journalGet l t (createRowUniqueID pk) = Some op0" for op0
  proof -
    obtain entry0 where e: "om_Get (entries l) t = Some entry0"
        and o: "om_Get entry0 (createRowUniqueID pk) = Some op0"
      using j0 by (auto simp: journalGet_def split: option.splits)
    have "entry = entry0" and "l1 = l"
      using g e by (simp_all add: getEntry_def)
    then have "l' = setEntry l t
        (om_Set entry0 (createRowUniqueID pk) (newDeleteOperation table pk rb))"
      using l' o by simp
    then show ?thesis
      unfolding journalKeys_def setEntry_def
      using om_Set_shape [OF e om_Set_keys_present [OF o]] by simp
  qed
  show ?thesis
    using t getEntry_lookup [OF g, of "createRowUniqueID pk"] getEntry_fields [OF g] shape
    by (auto simp: l' journalGet_setEntry om_Get_om_Set split: option.splits)
qed

lemma Update_existing:
  assumes oi: "\<not> onlyInserts l" and t: "tables l t = Some table"
    and pc: "ti_primaryColumns table \<noteq> []"
    and j: "journalGet l t (createRowUniqueID pk) = Some op"
  shows "Update l t pk data rb =
     (if opType op = OperationTypeDelete then (Some (ErrUpdateScheduledToBeDeleted pk), l)
      else (None, setEntry l t
              (om_Set (the (om_Get (entries l) t)) (createRowUniqueID pk) (mergeData op data))))"
proof -
  obtain entry where e: "om_Get (entries l) t = Some entry"
      and o: "om_Get entry (createRowUniqueID pk) = Some op"
    using j by (auto simp: journalGet_def split: option.splits)
  show ?thesis using oi t pc e o by (simp add: Update_def getEntry_found)
qed

subsection \<open>Membership in an ordered map\<close>

lemma om_Set_mem: "x \<in> set (om_Set m k v) \<Longrightarrow> x = (k, v) \<or> x \<in> set m"
  by (induction m) (auto split: if_splits)

lemma om_Get_mem: "om_Get m k = Some v \<Longrightarrow> (k, v) \<in> set m"
  by (simp add: om_Get_def map_of_SomeD)

subsection \<open>One change of a block at a time\<close>

lemma applyDatabaseChanges_step:
  assumes "applyDatabaseChanges l (change # rest) B F = (r, l')"
  shows "l' = l \<or> applyDatabaseChanges l rest B F = (r, l') \<or>
         (\<exists>pks l1.
            (Insert l (change_Table change) pks (setFields Map.empty (change_Fields change))
               (if F < B then Some B else None) = (None, l1) \<or>
             Update l (change_Table change) pks (setFields Map.empty (change_Fields change))
               (if F < B then Some B else None) = (None, l1) \<or>
             Delete l (change_Table change) pks (if F < B then Some B else None) = (None, l1)) \<and>
            applyDatabaseChanges l1 rest B F = (r, l'))"
proof (cases "HasTable l (change_Table change)")
  case False
  then show ?thesis using assms by simp
next
  case True
  show ?thesis
  proof (cases "resolvePrimaryKey l change")
    case (Ok pks)
    show ?thesis
    proof (cases "change_Operation change")
      case TableChange_UNSET
      then show ?thesis using assms True Ok by simp
    next
      case TableChange_CREATE
      obtain e l1 where i: "Insert l (change_Table change) pks
          (setFields Map.empty (change_Fields change)) (if F < B then Some B else None) = (e, l1)"
        by (cases "Insert l (change_Table change) pks
          (setFields Map.empty (change_Fields change)) (if F < B then Some B else None)")
      show ?thesis
      proof (cases e)
        case None
        then have "applyDatabaseChanges l1 rest B F = (r, l')"
          using assms True Ok TableChange_CREATE i by (simp add: Let_def)
        then show ?thesis using i None by blast
      next
        case (Some err)
        then have "l1 = l" using i Insert_error_unchanged by blast
        then show ?thesis using assms True Ok TableChange_CREATE i Some by (auto simp: Let_def)
      qed
    next
      case TableChange_UPDATE
      obtain e l1 where i: "Update l (change_Table change) pks
          (setFields Map.empty (change_Fields change)) (if F < B then Some B else None) = (e, l1)"
        by (cases "Update l (change_Table change) pks
          (setFields Map.empty (change_Fields change)) (if F < B then Some B else None)")
      show ?thesis
      proof (cases e)
        case None
        then have "applyDatabaseChanges l1 rest B F = (r, l')"
          using assms True Ok TableChange_UPDATE i by (simp add: Let_def)
        then show ?thesis using i None by blast
      next
        case (Some err)
        then have "l1 = l" using i Update_error_unchanged by blast
        then show ?thesis using assms True Ok TableChange_UPDATE i Some by (auto simp: Let_def)
      qed
    next
      case TableChange_DELETE
      obtain e l1 where i: "Delete l (change_Table change) pks
          (if F < B then Some B else None) = (e, l1)"
        by (cases "Delete l (change_Table change) pks (if F < B then Some B else None)")
      show ?thesis
      proof (cases e)
        case None
        then have "applyDatabaseChanges l1 rest B F = (r, l')"
          using assms True Ok TableChange_DELETE i by (simp add: Let_def)
        then show ?thesis using i None by blast
      next
        case (Some err)
        then have "l1 = l" using i Delete_error_unchanged by blast
        then show ?thesis using assms True Ok TableChange_DELETE i Some by (auto simp: Let_def)
      qed
    qed
  next
    case (Error err)
    then show ?thesis using assms True by simp
  next
    case (Panic p)
    then show ?thesis using assms True by simp
  qed
qed

subsection \<open>What the handlers leave unchanged\<close>

lemma getEntry_flushInterval:
  "getEntry l t = (entry, l1) \<Longrightarrow> flushInterval l1 = flushInterval l"
  by (auto simp: getEntry_def split: option.splits)

lemma Insert_flushInterval: "Insert l t pk d rb = (e, l') \<Longrightarrow> flushInterval l' = flushInterval l"
  by (auto simp: Insert_def Let_def setEntry_def split: option.splits prod.splits
      dest: getEntry_flushInterval)

lemma Update_flushInterval: "Update l t pk d rb = (e, l') \<Longrightarrow> flushInterval l' = flushInterval l"
  by (auto simp: Update_def Let_def setEntry_def split: option.splits prod.splits if_splits
      dest: getEntry_flushInterval)

lemma Delete_flushInterval: "Delete l t pk rb = (e, l') \<Longrightarrow> flushInterval l' = flushInterval l"
  by (auto simp: Delete_def Let_def setEntry_def split: option.splits prod.splits if_splits
      dest: getEntry_flushInterval)

lemma applyDatabaseChanges_flushInterval:
  "applyDatabaseChanges l changes B F = (r, l') \<Longrightarrow> flushInterval l' = flushInterval l"
proof (induction changes arbitrary: l)
  case Nil
  then show ?case by simp
next
  case (Cons change rest)
  from applyDatabaseChanges_step [OF Cons.prems]
  show ?case
    using Cons.IH Insert_flushInterval Update_flushInterval Delete_flushInterval
    by metis
qed

lemma batchBlockModulo_nonzero: "batchBlockModulo l isLive = Ok m \<Longrightarrow> m \<noteq> 0"
  by (auto simp: batchBlockModulo_def LIVE_BLOCK_FLUSH_EACH_def HISTORICAL_BLOCK_FLUSH_EACH_def
      word_sless_alt split: option.splits if_splits)

lemma dump_bundleSize:
  "dumpDatabaseChangesIntoCSV enc s changes = (r, s1) \<Longrightarrow> bundleSize s1 = bundleSize s"
proof (induction changes arbitrary: s)
  case Nil
  then show ?case by simp
next
  case (Cons change rest)
  then show ?case
    by (auto simp: Let_def split: if_splits result.splits option.splits
        TableChange_Operation.splits)
qed

lemma GetPrimaryKey_panic: "GetPrimaryKey l t pk = Panic p \<Longrightarrow> p = NilPointerDereference"
  by (auto simp: GetPrimaryKey_def split: option.splits list.splits)

lemma dump_panic:
  "dumpDatabaseChangesIntoCSV enc s changes = (Panic p, s1) \<Longrightarrow>
     p = NilPointerDereference \<or> p = AssignmentToEntryInNilMap"
proof (induction changes arbitrary: s)
  case Nil
  then show ?case by simp
next
  case (Cons change rest)
  then show ?case
    by (auto simp: Let_def resolvePrimaryKey_def split: if_splits result.splits option.splits
        TableChange_Operation.splits TableChange_PrimaryKey.splits dest: GetPrimaryKey_panic)
qed

subsection \<open>Rows of the journal\<close>

lemma om_Set_keys:
  "map fst (om_Set m k v) = (if k \<in> set (map fst m) then map fst m else map fst m @ [k])"
  by (induction m) force+

lemma om_Set_distinct: "distinct (map fst m) \<Longrightarrow> distinct (map fst (om_Set m k v))"
  by (simp add: om_Set_keys)

lemma wf_journal_setEntry:
  assumes "wf_journal l" and "distinct (map fst entry)"
  shows "wf_journal (setEntry l t entry)"
  using assms
  by (auto simp: wf_journal_def setEntry_def om_Set_distinct dest!: om_Set_mem)

lemma wf_journal_entriesCount [simp]: "wf_journal (l\<lparr>entriesCount := n\<rparr>) = wf_journal l"
  by (simp add: wf_journal_def)

lemma wf_journal_getEntry:
  assumes "getEntry l t = (entry, l1)" and "wf_journal l"
  shows "wf_journal l1" and "distinct (map fst entry)"
proof -
  show "wf_journal l1"
    using assms
    by (auto simp: getEntry_def NewOrderedMap_def wf_journal_def om_Set_distinct
        split: option.splits dest!: om_Set_mem)
  show "distinct (map fst entry)"
    using assms
    by (auto simp: getEntry_def NewOrderedMap_def wf_journal_def split: option.splits
        dest!: om_Get_mem)
qed

lemma Insert_wf_journal:
  assumes "Insert l t pk d rb = (e, l')" and "wf_journal l"
  shows "wf_journal l'"
proof -
  obtain entry l1 where g: "getEntry l t = (entry, l1)" by (cases "getEntry l t")
  show ?thesis
    using assms wf_journal_getEntry [OF g assms(2)]
    by (auto simp: Insert_def Let_def g om_Set_distinct wf_journal_setEntry
        split: option.splits)
qed

lemma Update_wf_journal:
  assumes "Update l t pk d rb = (e, l')" and "wf_journal l"
  shows "wf_journal l'"
proof -
  obtain entry l1 where g: "getEntry l t = (entry, l1)" by (cases "getEntry l t")
  show ?thesis
    using assms wf_journal_getEntry [OF g assms(2)]
    by (auto simp: Update_def Let_def g om_Set_distinct wf_journal_setEntry
        split: option.splits if_splits)
qed

lemma Delete_wf_journal:
  assumes "Delete l t pk rb = (e, l')" and "wf_journal l"
  shows "wf_journal l'"
proof -
  obtain entry l1 where g: "getEntry l t = (entry, l1)" by (cases "getEntry l t")
  show ?thesis
    using assms wf_journal_getEntry [OF g assms(2)]
    by (auto simp: Delete_def Let_def g om_Set_distinct wf_journal_setEntry
        split: option.splits if_splits)
qed

lemma in_journalRows:
  "(t, k, op) \<in> set (journalRows l) \<longleftrightarrow>
     (\<exists>entry. (t, entry) \<in> set (entries l) \<and> (k, op) \<in> set entry)"
  by (force simp: journalRows_def)

lemma journalRows_iff_journalGet:
  assumes "wf_journal l"
  shows "(t, k, op) \<in> set (journalRows l) \<longleftrightarrow> journalGet l t k = Some op"
proof
  assume "(t, k, op) \<in> set (journalRows l)"
  then obtain entry where e: "(t, entry) \<in> set (entries l)" and o: "(k, op) \<in> set entry"
    unfolding in_journalRows by blast
  have "distinct (map fst entry)" using assms e by (auto simp: wf_journal_def)
  then show "journalGet l t k = Some op"
    using assms e o by (simp add: journalGet_def om_Get_def wf_journal_def)
next
  assume "journalGet l t k = Some op"
  then obtain entry where "om_Get (entries l) t = Some entry" and "om_Get entry k = Some op"
    by (auto simp: journalGet_def split: option.splits)
  then show "(t, k, op) \<in> set (journalRows l)"
    unfolding in_journalRows by (auto dest: om_Get_mem)
qed

lemma journalOps_journalRows: "journalOps l = map (\<lambda>(t, k, op). op) (journalRows l)"
  by (simp add: journalOps_def journalRows_def map_concat comp_def case_prod_unfold)

lemma getEntry_other:
  "getEntry l t = (entry, l1) \<Longrightarrow> journalGet l1 t' k = journalGet l t' k"
  by (cases "t' = t")
     (auto simp: getEntry_def journalGet_def om_Get_om_Set NewOrderedMap_def
      split: option.splits, auto simp: om_Get_def)

lemma Insert_other_rows:
  assumes "Insert l t pk d rb = (e, l')" and "(t', k) \<noteq> (t, createRowUniqueID pk)"
  shows "journalGet l' t' k = journalGet l t' k"
proof -
  obtain entry l1 where g: "getEntry l t = (entry, l1)" by (cases "getEntry l t")
  show ?thesis
    using assms getEntry_other [OF g, of t' k] getEntry_lookup [OF g, of k]
    by (auto simp: Insert_def Let_def g journalGet_setEntry om_Get_om_Set
        split: option.splits)
qed

lemma Delete_other_rows:
  assumes "Delete l t pk rb = (e, l')" and "(t', k) \<noteq> (t, createRowUniqueID pk)"
  shows "journalGet l' t' k = journalGet l t' k"
proof -
  obtain entry l1 where g: "getEntry l t = (entry, l1)" by (cases "getEntry l t")
  show ?thesis
    using assms getEntry_other [OF g, of t' k] getEntry_lookup [OF g, of k]
    by (auto simp: Delete_def Let_def g journalGet_setEntry om_Get_om_Set
        split: option.splits if_splits)
qed

subsection \<open>Changes applied one after another\<close>

lemma Update_success:
  assumes "Update l t pk d rb = (None, l')"
  shows "\<exists>table. tables l t = Some table \<and>
           journalGet l' t (createRowUniqueID pk) =
             Some (case journalGet l t (createRowUniqueID pk) of
                     None \<Rightarrow> newUpdateOperation table pk d rb
                   | Some op \<Rightarrow> mergeData op d)"
proof -
  have oi: "\<not> onlyInserts l" using assms by (auto simp: Update_def split: if_splits)
  obtain table where t: "tables l t = Some table"
    using assms oi by (auto simp: Update_def Let_def split: option.splits)
  have pc: "length (ti_primaryColumns table) \<noteq> 0"
    using assms oi t by (auto simp: Update_def Let_def split: if_splits)
  obtain entry l1 where g: "getEntry l t = (entry, l1)" by (cases "getEntry l t")
  show ?thesis
    using assms oi t pc getEntry_lookup [OF g, of "createRowUniqueID pk"]
    by (auto simp: Update_def Let_def g journalGet_setEntry om_Get_om_Set
        split: option.splits if_splits)
qed

lemma applyDatabaseChanges_append:
  "applyDatabaseChanges l (pre @ post) blockNum finalBlockNum =
     (case applyDatabaseChanges l pre blockNum finalBlockNum of
        (Ok u, lm) \<Rightarrow> applyDatabaseChanges lm post blockNum finalBlockNum
      | (Error err, lm) \<Rightarrow> (Error err, lm)
      | (Panic p, lm) \<Rightarrow> (Panic p, lm))"
proof (induction pre arbitrary: l)
  case Nil
  then show ?case by simp
next
  case (Cons change pre)
  let ?R = "if finalBlockNum < blockNum then Some blockNum else None"
  let ?t = "change_Table change" and ?d = "setFields Map.empty (change_Fields change)"
  show ?case
  proof (cases "HasTable l ?t")
    case False
    then show ?thesis by simp
  next
    case True
    show ?thesis
    proof (cases "resolvePrimaryKey l change")
      case (Ok pks)
      show ?thesis
      proof (cases "change_Operation change")
        case TableChange_UNSET
        then show ?thesis using True Ok by (simp add: Cons.IH)
      next
        case TableChange_CREATE
        obtain e l1 where c: "Insert l ?t pks ?d ?R = (e, l1)"
          by (cases "Insert l ?t pks ?d ?R")
        show ?thesis
          using True Ok TableChange_CREATE c by (cases e) (simp_all add: Cons.IH Let_def)
      next
        case TableChange_UPDATE
        obtain e l1 where c: "Update l ?t pks ?d ?R = (e, l1)"
          by (cases "Update l ?t pks ?d ?R")
        show ?thesis
          using True Ok TableChange_UPDATE c by (cases e) (simp_all add: Cons.IH Let_def)
      next
        case TableChange_DELETE
        obtain e l1 where c: "Delete l ?t pks ?R = (e, l1)"
          by (cases "Delete l ?t pks ?R")
        show ?thesis
          using True Ok TableChange_DELETE c by (cases e) (simp_all add: Cons.IH Let_def)
      qed
    next
      case (Error err)
      then show ?thesis using True by simp
    next
      case (Panic p)
      then show ?thesis using True by simp
    qed
  qed
qed

subsection \<open>The nil map of a composite key without keys\<close>

lemma dumpDatabaseChangesIntoCSV_nil_map:
  "dumpDatabaseChangesIntoCSV CSVEncode (ex_bulk 1000)
     [(ex_change TableChange_CREATE)\<lparr>change_PrimaryKey := TableChange_CompositePk []\<rparr>]
     = (Panic AssignmentToEntryInNilMap, ex_bulk 1000)"
  by (simp add: loader_defs ex_defs)

section \<open>The claims\<close>

subsection \<open>C1: the reversible block number handed to the Loader\<close>

text \<open>
  C1, as the code has it. Take any change of a block: the changes before it were applied
  without error, its table is known and its primary key resolves. With
  \<open>R = Some blockNum\<close> when \<open>finalBlockNum < blockNum\<close> and \<open>R = None\<close> otherwise,
  \<^verbatim>\<open>applyDatabaseChanges\<close> does what the Loader call with the block number \<open>R\<close> does:
  for a CREATE, an UPDATE and a DELETE it goes on from the Loader that \<^verbatim>\<open>Insert\<close>,
  \<^verbatim>\<open>Update\<close> and \<^verbatim>\<open>Delete\<close> called with \<open>R\<close> leave, or stops with their error; an UNSET
  calls nothing. After a CREATE the row holds an Insert that carries \<open>R\<close>, after a DELETE a
  Delete that carries \<open>R\<close>, after an UPDATE of a row with no pending operation an
  operation that carries \<open>R\<close>; an UPDATE merged into a pending operation leaves the
  block number that operation had.
\<close>

theorem applyDatabaseChanges_reversibleBlockNum:
  fixes blockNum finalBlockNum :: uint64
  defines "R \<equiv> (if finalBlockNum < blockNum then Some blockNum else None)"
  assumes pre: "applyDatabaseChanges l pre blockNum finalBlockNum = (Ok (), lm)"
    and tbl: "HasTable lm (change_Table change)"
    and pk: "resolvePrimaryKey lm change = Ok pks"
  shows
    "(change_Operation change = TableChange_CREATE \<longrightarrow>
        (case Insert lm (change_Table change) pks
                (setFields Map.empty (change_Fields change)) R of
           (Some err, l1) \<Rightarrow>
             applyDatabaseChanges l (pre @ change # rest) blockNum finalBlockNum
               = (Error (ErrDatabaseInsert err), l1)
         | (None, l1) \<Rightarrow>
             applyDatabaseChanges l (pre @ change # rest) blockNum finalBlockNum
               = applyDatabaseChanges l1 rest blockNum finalBlockNum \<and>
             map_option opType
               (journalGet l1 (change_Table change) (createRowUniqueID pks))
               = Some OperationTypeInsert \<and>
             map_option op_reversibleBlockNum
               (journalGet l1 (change_Table change) (createRowUniqueID pks)) = Some R)) \<and>
     (change_Operation change = TableChange_UPDATE \<longrightarrow>
        (case Update lm (change_Table change) pks
                (setFields Map.empty (change_Fields change)) R of
           (Some err, l1) \<Rightarrow>
             applyDatabaseChanges l (pre @ change # rest) blockNum finalBlockNum
               = (Error (ErrDatabaseUpdate err), l1)
         | (None, l1) \<Rightarrow>
             applyDatabaseChanges l (pre @ change # rest) blockNum finalBlockNum
               = applyDatabaseChanges l1 rest blockNum finalBlockNum \<and>
             map_option op_reversibleBlockNum
               (journalGet l1 (change_Table change) (createRowUniqueID pks))
               = Some (case journalGet lm (change_Table change) (createRowUniqueID pks) of
                         None \<Rightarrow> R
                       | Some pending \<Rightarrow> op_reversibleBlockNum pending))) \<and>
     (change_Operation change = TableChange_DELETE \<longrightarrow>
        (case Delete lm (change_Table change) pks R of
           (Some err, l1) \<Rightarrow>
             applyDatabaseChanges l (pre @ change # rest) blockNum finalBlockNum
               = (Error (ErrDatabaseDelete err), l1)
         | (None, l1) \<Rightarrow>
             applyDatabaseChanges l (pre @ change # rest) blockNum finalBlockNum
               = applyDatabaseChanges l1 rest blockNum finalBlockNum \<and>
             map_option opType
               (journalGet l1 (change_Table change) (createRowUniqueID pks))
               = Some OperationTypeDelete \<and>
             map_option op_reversibleBlockNum
               (journalGet l1 (change_Table change) (createRowUniqueID pks)) = Some R)) \<and>
     (change_Operation change = TableChange_UNSET \<longrightarrow>
        applyDatabaseChanges l (pre @ change # rest) blockNum finalBlockNum
          = applyDatabaseChanges lm rest blockNum finalBlockNum)"
proof -
  let ?t = "change_Table change" and ?k = "createRowUniqueID pks"
    and ?d = "setFields Map.empty (change_Fields change)"
  have app: "applyDatabaseChanges l (pre @ change # rest) blockNum finalBlockNum
      = applyDatabaseChanges lm (change # rest) blockNum finalBlockNum"
    by (simp add: applyDatabaseChanges_append pre)
  have step: "applyDatabaseChanges lm (change # rest) blockNum finalBlockNum =
     (case change_Operation change of
        TableChange_CREATE \<Rightarrow>
          (case Insert lm ?t pks ?d R of
             (Some err, l') \<Rightarrow> (Error (ErrDatabaseInsert err), l')
           | (None, l') \<Rightarrow> applyDatabaseChanges l' rest blockNum finalBlockNum)
      | TableChange_UPDATE \<Rightarrow>
          (case Update lm ?t pks ?d R of
             (Some err, l') \<Rightarrow> (Error (ErrDatabaseUpdate err), l')
           | (None, l') \<Rightarrow> applyDatabaseChanges l' rest blockNum finalBlockNum)
      | TableChange_DELETE \<Rightarrow>
          (case Delete lm ?t pks R of
             (Some err, l') \<Rightarrow> (Error (ErrDatabaseDelete err), l')
           | (None, l') \<Rightarrow> applyDatabaseChanges l' rest blockNum finalBlockNum)
      | TableChange_UNSET \<Rightarrow> applyDatabaseChanges lm rest blockNum finalBlockNum)"
    unfolding R_def using tbl pk
    by (cases "change_Operation change") (simp_all add: Let_def)
  have ins: "map_option opType (journalGet l1 ?t ?k) = Some OperationTypeInsert \<and>
      map_option op_reversibleBlockNum (journalGet l1 ?t ?k) = Some R"
    if "Insert lm ?t pks ?d R = (None, l1)" for l1
    using Insert_success [OF that] by (auto simp: newInsertOperation_def)
  have del: "map_option opType (journalGet l1 ?t ?k) = Some OperationTypeDelete \<and>
      map_option op_reversibleBlockNum (journalGet l1 ?t ?k) = Some R"
    if "Delete lm ?t pks R = (None, l1)" for l1
    using Delete_success [OF that] by (auto simp: newDeleteOperation_def)
  have upd: "map_option op_reversibleBlockNum (journalGet l1 ?t ?k)
      = Some (case journalGet lm ?t ?k of None \<Rightarrow> R
              | Some pending \<Rightarrow> op_reversibleBlockNum pending)"
    if "Update lm ?t pks ?d R = (None, l1)" for l1
    using Update_success [OF that]
    by (auto simp: newUpdateOperation_def mergeData_def split: option.splits)
  show ?thesis
  proof (intro conjI impI)
    assume o: "change_Operation change = TableChange_CREATE"
    obtain e l1 where c: "Insert lm ?t pks ?d R = (e, l1)" by (cases "Insert lm ?t pks ?d R")
    show "case Insert lm ?t pks ?d R of
           (Some err, l1) \<Rightarrow>
             applyDatabaseChanges l (pre @ change # rest) blockNum finalBlockNum
               = (Error (ErrDatabaseInsert err), l1)
         | (None, l1) \<Rightarrow>
             applyDatabaseChanges l (pre @ change # rest) blockNum finalBlockNum
               = applyDatabaseChanges l1 rest blockNum finalBlockNum \<and>
             map_option opType (journalGet l1 ?t ?k) = Some OperationTypeInsert \<and>
             map_option op_reversibleBlockNum (journalGet l1 ?t ?k) = Some R"
      using ins [of l1] c o by (cases e) (simp_all add: app step del: applyDatabaseChanges.simps)
  next
    assume o: "change_Operation change = TableChange_UPDATE"
    obtain e l1 where c: "Update lm ?t pks ?d R = (e, l1)" by (cases "Update lm ?t pks ?d R")
    show "case Update lm ?t pks ?d R of
           (Some err, l1) \<Rightarrow>
             applyDatabaseChanges l (pre @ change # rest) blockNum finalBlockNum
               = (Error (ErrDatabaseUpdate err), l1)
         | (None, l1) \<Rightarrow>
             applyDatabaseChanges l (pre @ change # rest) blockNum finalBlockNum
               = applyDatabaseChanges l1 rest blockNum finalBlockNum \<and>
             map_option op_reversibleBlockNum (journalGet l1 ?t ?k)
               = Some (case journalGet lm ?t ?k of
                         None \<Rightarrow> R
                       | Some pending \<Rightarrow> op_reversibleBlockNum pending)"
      using upd [of l1] c o by (cases e) (simp_all add: app step del: applyDatabaseChanges.simps)
  next
    assume o: "change_Operation change = TableChange_DELETE"
    obtain e l1 where c: "Delete lm ?t pks R = (e, l1)" by (cases "Delete lm ?t pks R")
    show "case Delete lm ?t pks R of
           (Some err, l1) \<Rightarrow>
             applyDatabaseChanges l (pre @ change # rest) blockNum finalBlockNum
               = (Error (ErrDatabaseDelete err), l1)
         | (None, l1) \<Rightarrow>
             applyDatabaseChanges l (pre @ change # rest) blockNum finalBlockNum
               = applyDatabaseChanges l1 rest blockNum finalBlockNum \<and>
             map_option opType (journalGet l1 ?t ?k) = Some OperationTypeDelete \<and>
             map_option op_reversibleBlockNum (journalGet l1 ?t ?k) = Some R"
      using del [of l1] c o by (cases e) (simp_all add: app step del: applyDatabaseChanges.simps)
  next
    assume o: "change_Operation change = TableChange_UNSET"
    then show "applyDatabaseChanges l (pre @ change # rest) blockNum finalBlockNum
          = applyDatabaseChanges lm rest blockNum finalBlockNum"
      by (simp add: app step del: applyDatabaseChanges.simps)
  qed
qed

text \<open>
  A CREATE on the empty journal carries block 100 at final block 90 and no block at block
  90 with final block 100; an UPDATE at block 105 with final block 100 merged into an
  Insert that carries no block leaves it without one.
\<close>

theorem applyDatabaseChanges_reversibleBlockNum_witness:
  "applyDatabaseChanges ex_loader [] 100 90 = (Ok (), ex_loader) \<and>
   HasTable ex_loader (change_Table (ex_change TableChange_CREATE)) \<and>
   resolvePrimaryKey ex_loader (ex_change TableChange_CREATE) = Ok ex_pk \<and>
   map_option op_reversibleBlockNum
     (journalGet (snd (applyDatabaseChanges ex_loader [ex_change TableChange_CREATE] 100 90))
        ''users'' (createRowUniqueID ex_pk)) = Some (Some 100) \<and>
   map_option op_reversibleBlockNum
     (journalGet (snd (applyDatabaseChanges ex_loader [ex_change TableChange_CREATE] 90 100))
        ''users'' (createRowUniqueID ex_pk)) = Some None \<and>
   map_option op_reversibleBlockNum
     (journalGet ex_loader_inserted ''users'' (createRowUniqueID ex_pk)) = Some None \<and>
   map_option op_reversibleBlockNum
     (journalGet (snd (applyDatabaseChanges ex_loader_inserted [ex_change TableChange_UPDATE] 105 100))
        ''users'' (createRowUniqueID ex_pk)) = Some None"
proof -
  let ?c = "ex_change TableChange_CREATE" and ?u = "ex_change TableChange_UPDATE"
  let ?d = "setFields Map.empty (change_Fields ?c)"
  have pre: "applyDatabaseChanges ex_loader [] b f = (Ok (), ex_loader)" for b f
    by simp
  have tbl: "HasTable ex_loader (change_Table ?c)"
    and pk: "resolvePrimaryKey ex_loader ?c = Ok ex_pk"
    and op: "change_Operation ?c = TableChange_CREATE"
    by (simp_all add: loader_defs ex_defs)
  have t: "change_Table ?c = ''users''" by (simp add: ex_defs)
  have "fst (Insert ex_loader (change_Table ?c) ex_pk ?d (Some 100)) = None"
    by (simp add: loader_defs ex_defs)
  then obtain l1 where i1: "Insert ex_loader (change_Table ?c) ex_pk ?d (Some 100) = (None, l1)"
    by (metis prod.collapse)
  from applyDatabaseChanges_reversibleBlockNum [OF pre [of 100 90] tbl pk, where rest = "[]"] op i1
  have "applyDatabaseChanges ex_loader [?c] 100 90 = (Ok (), l1) \<and>
      map_option op_reversibleBlockNum (journalGet l1 ''users'' (createRowUniqueID ex_pk))
        = Some (Some 100)"
    by (simp add: t del: applyDatabaseChanges.simps(2))
  then have a: "map_option op_reversibleBlockNum
     (journalGet (snd (applyDatabaseChanges ex_loader [?c] 100 90))
        ''users'' (createRowUniqueID ex_pk)) = Some (Some 100)"
    by simp
  have "fst (Insert ex_loader (change_Table ?c) ex_pk ?d None) = None"
    by (simp add: loader_defs ex_defs)
  then obtain l2 where i2: "Insert ex_loader (change_Table ?c) ex_pk ?d None = (None, l2)"
    by (metis prod.collapse)
  from applyDatabaseChanges_reversibleBlockNum [OF pre [of 90 100] tbl pk, where rest = "[]"] op i2
  have "applyDatabaseChanges ex_loader [?c] 90 100 = (Ok (), l2) \<and>
      map_option op_reversibleBlockNum (journalGet l2 ''users'' (createRowUniqueID ex_pk))
        = Some None"
    by (simp add: t del: applyDatabaseChanges.simps(2))
  then have b: "map_option op_reversibleBlockNum
     (journalGet (snd (applyDatabaseChanges ex_loader [?c] 90 100))
        ''users'' (createRowUniqueID ex_pk)) = Some None"
    by simp
  have pre': "applyDatabaseChanges ex_loader_inserted [] 105 100 = (Ok (), ex_loader_inserted)"
    by simp
  have tbl': "HasTable ex_loader_inserted (change_Table ?u)"
    and pk': "resolvePrimaryKey ex_loader_inserted ?u = Ok ex_pk"
    and op': "change_Operation ?u = TableChange_UPDATE"
    and t': "change_Table ?u = ''users''"
    and pend: "map_option op_reversibleBlockNum
      (journalGet ex_loader_inserted ''users'' (createRowUniqueID ex_pk)) = Some None"
    by (simp_all add: loader_defs ex_defs)
  have "fst (Update ex_loader_inserted (change_Table ?u) ex_pk
        (setFields Map.empty (change_Fields ?u)) (Some 105)) = None"
    by (simp add: loader_defs ex_defs)
  then obtain l3 where u1: "Update ex_loader_inserted (change_Table ?u) ex_pk
        (setFields Map.empty (change_Fields ?u)) (Some 105) = (None, l3)"
    by (metis prod.collapse)
  from applyDatabaseChanges_reversibleBlockNum [OF pre' tbl' pk', where rest = "[]"] op' u1 pend
  have "applyDatabaseChanges ex_loader_inserted [?u] 105 100 = (Ok (), l3) \<and>
      map_option op_reversibleBlockNum (journalGet l3 ''users'' (createRowUniqueID ex_pk))
        = Some None"
    by (auto simp: t' simp del: applyDatabaseChanges.simps(2) split: option.splits)
  then have c: "map_option op_reversibleBlockNum
     (journalGet (snd (applyDatabaseChanges ex_loader_inserted [?u] 105 100))
        ''users'' (createRowUniqueID ex_pk)) = Some None"
    by simp
  show ?thesis
    by (intro conjI) (rule pre [of 100 90] tbl pk a b pend c)+
qed

text \<open>
  C1 as stated fails both ways. Block 100 is at or above the final block 90, where the
  claim has nothing written, yet the Insert carries block 100; block 90 is below the final
  block 100, where the claim has block 90 recorded, yet the Insert carries none.
\<close>

theorem reversibleBlockNum_counterexample:
  "fst (applyDatabaseChanges ex_loader [ex_change TableChange_CREATE] 100 90) = Ok () \<and>
   map op_reversibleBlockNum
     (journalOps (snd (applyDatabaseChanges ex_loader [ex_change TableChange_CREATE] 100 90)))
     = [Some 100] \<and>
   fst (applyDatabaseChanges ex_loader [ex_change TableChange_CREATE] 90 100) = Ok () \<and>
   map op_reversibleBlockNum
     (journalOps (snd (applyDatabaseChanges ex_loader [ex_change TableChange_CREATE] 90 100)))
     = [None]"
  by (simp add: loader_defs ex_defs)

subsection \<open>C2: UPDATE and DELETE in CSV mode\<close>

text \<open>
  C2 against the code: the \<^verbatim>\<open>UPDATE\<close> and \<^verbatim>\<open>DELETE\<close> cases of
  \<^verbatim>\<open>dumpDatabaseChangesIntoCSV\<close> are empty, and a Go \<^verbatim>\<open>switch\<close> does not fall through, so
  the error of the \<^verbatim>\<open>default\<close> case is not reached: an UPDATE and a DELETE of a known
  table are accepted with no error, and nothing is written to the bundler.
\<close>

theorem dumpDatabaseChangesIntoCSV_accepts_update_delete:
  "dumpDatabaseChangesIntoCSV CSVEncode (ex_bulk 1000)
     [ex_change TableChange_UPDATE, ex_change TableChange_DELETE] = (Ok (), ex_bulk 1000)"
  by (simp add: loader_defs ex_defs)

subsection \<open>C3: Insert, then Delete\<close>

text \<open>
  C3, as the code has it: in a journal whose ordered maps hold every table and every row
  id once, when \<^verbatim>\<open>Insert(t, pk, data)\<close> and then \<^verbatim>\<open>Delete(t, pk)\<close> succeed in one flush
  window, the Delete replaces the Insert. Among the pending operations that the flush goes
  through, the row of \<open>pk\<close> then has exactly one, the Delete that carries \<open>pk\<close>, and no
  Insert; the rows of all other keys hold what they held before the two calls; the
  journal has the tables and row ids it had after the Insert, and the two calls together
  count one journal entry.
\<close>

theorem Insert_then_Delete:
  assumes wf: "wf_journal l"
    and i: "Insert l t pk data rb = (None, l1)" and d: "Delete l1 t pk rb' = (None, l2)"
  shows "\<exists>table. tables l t = Some table \<and>
           wf_journal l2 \<and>
           journalGet l2 t (createRowUniqueID pk) = Some (newDeleteOperation table pk rb') \<and>
           (\<forall>op. (t, createRowUniqueID pk, op) \<in> set (journalRows l2) \<longleftrightarrow>
                 op = newDeleteOperation table pk rb') \<and>
           (\<forall>t' k op. (t', k) \<noteq> (t, createRowUniqueID pk) \<longrightarrow>
                 ((t', k, op) \<in> set (journalRows l2) \<longleftrightarrow> (t', k, op) \<in> set (journalRows l))) \<and>
           newDeleteOperation table pk rb' \<in> set (journalOps l2) \<and>
           journalKeys l2 = journalKeys l1 \<and>
           entriesCount l2 = entriesCount l + 1"
proof -
  have wf1: "wf_journal l1" using i wf by (rule Insert_wf_journal)
  have wf2: "wf_journal l2" using d wf1 by (rule Delete_wf_journal)
  from Insert_success [OF i] Delete_success [OF d]
  obtain table where t: "tables l t = Some table"
    and g: "journalGet l2 t (createRowUniqueID pk) = Some (newDeleteOperation table pk rb')"
    and k: "journalKeys l2 = journalKeys l1"
    and c: "entriesCount l2 = entriesCount l + 1"
    by auto
  have row: "(t, createRowUniqueID pk, op) \<in> set (journalRows l2) \<longleftrightarrow>
      op = newDeleteOperation table pk rb'" for op
    using journalRows_iff_journalGet [OF wf2] g by auto
  have others: "(t', k, op) \<in> set (journalRows l2) \<longleftrightarrow> (t', k, op) \<in> set (journalRows l)"
    if "(t', k) \<noteq> (t, createRowUniqueID pk)" for t' k op
    using journalRows_iff_journalGet [OF wf2] journalRows_iff_journalGet [OF wf]
      Insert_other_rows [OF i that] Delete_other_rows [OF d that] by simp
  have sent: "newDeleteOperation table pk rb' \<in> set (journalOps l2)"
    using row [of "newDeleteOperation table pk rb'"]
    by (force simp: journalOps_journalRows)
  show ?thesis using t wf2 g row others sent k c by blast
qed

theorem Insert_then_Delete_witness:
  "wf_journal ex_loader \<and>
   Insert ex_loader ''users'' ex_pk Map.empty None = (None, ex_loader_inserted) \<and>
   Delete ex_loader_inserted ''users'' ex_pk (Some 7) =
     (None, snd (Delete ex_loader_inserted ''users'' ex_pk (Some 7))) \<and>
   journalGet (snd (Delete ex_loader_inserted ''users'' ex_pk (Some 7))) ''users''
       (createRowUniqueID ex_pk) = Some (newDeleteOperation ex_users ex_pk (Some 7)) \<and>
   journalRows (snd (Delete ex_loader_inserted ''users'' ex_pk (Some 7)))
     = [(''users'', ''42'', newDeleteOperation ex_users ex_pk (Some 7))] \<and>
   entriesCount (snd (Delete ex_loader_inserted ''users'' ex_pk (Some 7))) = 1"
proof -
  let ?l2 = "snd (Delete ex_loader_inserted ''users'' ex_pk (Some 7))"
  have wf: "wf_journal ex_loader"
    by (simp add: wf_journal_def ex_loader_def)
  have i: "Insert ex_loader ''users'' ex_pk Map.empty None = (None, ex_loader_inserted)"
    by (simp add: loader_defs ex_defs)
  have d: "Delete ex_loader_inserted ''users'' ex_pk (Some 7) = (None, ?l2)"
    by (simp add: loader_defs ex_defs)
  have t: "tables ex_loader ''users'' = Some ex_users" and c: "entriesCount ex_loader = 0"
    by (simp_all add: ex_loader_def)
  have r: "journalRows ?l2 = [(''users'', ''42'', newDeleteOperation ex_users ex_pk (Some 7))]"
    by (simp add: loader_defs ex_defs)
  from Insert_then_Delete [OF wf i d]
  have "journalGet ?l2 ''users'' (createRowUniqueID ex_pk)
      = Some (newDeleteOperation ex_users ex_pk (Some 7)) \<and> entriesCount ?l2 = 1"
    by (auto simp: t c)
  then show ?thesis using wf i d r by simp
qed

text \<open>
  C3 as stated fails: after Insert and Delete of the key 42 the journal does hold an
  operation for the row, a Delete carrying the key, which the flush sends to the database.
\<close>

theorem Insert_then_Delete_counterexample:
  "fst (Insert ex_loader ''users'' ex_pk Map.empty None) = None \<and>
   fst (Delete ex_loader_inserted ''users'' ex_pk None) = None \<and>
   map_option opType (journalGet ex_loader_deleted ''users'' (createRowUniqueID ex_pk))
     = Some OperationTypeDelete \<and>
   map_option op_primaryKey (journalGet ex_loader_deleted ''users'' (createRowUniqueID ex_pk))
     = Some [(''id'', ''42'')] \<and>
   map opType (journalOps ex_loader_deleted) = [OperationTypeDelete]"
  by (simp add: loader_defs ex_defs)

subsection \<open>C4: Update of a row that has a pending operation\<close>

text \<open>
  C4, as the code has it: for a dialect that is not insert-only and a registered table
  with at least one primary column, an Update of a row whose pending operation is a Delete
  returns an error and leaves the Loader as it was; otherwise it returns no error, the
  pending operation keeps its kind, its key and its block number, its data is merged field
  by field with the last write winning, the journal keeps its tables and row ids (no second
  entry), and the entry count is unchanged.
\<close>

theorem Update_pending_operation:
  assumes oi: "\<not> onlyInserts l" and t: "tables l t = Some table"
    and pc: "ti_primaryColumns table \<noteq> []"
    and j: "journalGet l t (createRowUniqueID pk) = Some op"
  shows "(opType op = OperationTypeDelete \<longrightarrow> (\<exists>e. Update l t pk data rb = (Some e, l))) \<and>
         (opType op \<noteq> OperationTypeDelete \<longrightarrow>
            (\<exists>l' op'. Update l t pk data rb = (None, l') \<and>
               journalGet l' t (createRowUniqueID pk) = Some op' \<and>
               opType op' = opType op \<and>
               (\<forall>f. op_data op' f = (case data f of Some v \<Rightarrow> Some v | None \<Rightarrow> op_data op f)) \<and>
               op_primaryKey op' = op_primaryKey op \<and>
               op_reversibleBlockNum op' = op_reversibleBlockNum op \<and>
               journalKeys l' = journalKeys l \<and>
               entriesCount l' = entriesCount l))"
proof -
  obtain entry where e: "om_Get (entries l) t = Some entry"
      and o: "om_Get entry (createRowUniqueID pk) = Some op"
    using j by (auto simp: journalGet_def split: option.splits)
  have shape: "journalKeys (setEntry l t (om_Set entry (createRowUniqueID pk) (mergeData op data)))
      = journalKeys l"
    unfolding journalKeys_def setEntry_def
    using om_Set_shape [OF e om_Set_keys_present [OF o]] by simp
  show ?thesis
    using Update_existing [OF oi t pc j, of data rb] e shape
    by (auto simp: journalGet_setEntry om_Get_om_Set mergeData_def map_add_def split: option.splits)
qed

text \<open>
  An Update of the name after the Insert of row 42 keeps the Insert and merges the name;
  an Update after its Delete is an error.
\<close>

theorem Update_pending_operation_witness:
  "\<not> onlyInserts ex_loader_inserted \<and>
   tables ex_loader_inserted ''users'' = Some ex_users \<and>
   ti_primaryColumns ex_users \<noteq> [] \<and>
   journalGet ex_loader_inserted ''users'' (createRowUniqueID ex_pk)
     = Some (newInsertOperation ex_users ex_pk [''id'' \<mapsto> ''42''] None) \<and>
   fst (Update ex_loader_inserted ''users'' ex_pk [''name'' \<mapsto> ''Grace''] None) = None \<and>
   journalGet (snd (Update ex_loader_inserted ''users'' ex_pk [''name'' \<mapsto> ''Grace''] None))
       ''users'' (createRowUniqueID ex_pk)
     = Some (newInsertOperation ex_users ex_pk [''id'' \<mapsto> ''42'', ''name'' \<mapsto> ''Grace''] None) \<and>
   entriesCount (snd (Update ex_loader_inserted ''users'' ex_pk [''name'' \<mapsto> ''Grace''] None))
     = entriesCount ex_loader_inserted \<and>
   journalGet ex_loader_deleted ''users'' (createRowUniqueID ex_pk)
     = Some (newDeleteOperation ex_users ex_pk None) \<and>
   Update ex_loader_deleted ''users'' ex_pk [''name'' \<mapsto> ''Grace''] None
     = (Some (ErrUpdateScheduledToBeDeleted ex_pk), ex_loader_deleted)"
proof -
  let ?op = "newInsertOperation ex_users ex_pk [''id'' \<mapsto> ''42''] None"
  let ?u = "Update ex_loader_inserted ''users'' ex_pk [''name'' \<mapsto> ''Grace''] None"
  have oi: "\<not> onlyInserts ex_loader_inserted"
    and t: "tables ex_loader_inserted ''users'' = Some ex_users"
    and pc: "ti_primaryColumns ex_users \<noteq> []"
    and j: "journalGet ex_loader_inserted ''users'' (createRowUniqueID ex_pk) = Some ?op"
    by (simp_all add: loader_defs ex_defs)
  have k: "opType ?op \<noteq> OperationTypeDelete"
    by (simp add: newInsertOperation_def)
  from Update_pending_operation [OF oi t pc j, of "[''name'' \<mapsto> ''Grace'']" None] k
  obtain l' op' where u: "?u = (None, l')"
    and c: "entriesCount l' = entriesCount ex_loader_inserted"
    by blast
  have m: "journalGet (snd ?u) ''users'' (createRowUniqueID ex_pk)
     = Some (newInsertOperation ex_users ex_pk [''id'' \<mapsto> ''42'', ''name'' \<mapsto> ''Grace''] None)"
    by (simp add: loader_defs ex_defs map_add_def fun_eq_iff)
  have oi': "\<not> onlyInserts ex_loader_deleted"
    and t': "tables ex_loader_deleted ''users'' = Some ex_users"
    and j': "journalGet ex_loader_deleted ''users'' (createRowUniqueID ex_pk)
       = Some (newDeleteOperation ex_users ex_pk None)"
    by (simp_all add: loader_defs ex_defs)
  have d: "Update ex_loader_deleted ''users'' ex_pk [''name'' \<mapsto> ''Grace''] None
     = (Some (ErrUpdateScheduledToBeDeleted ex_pk), ex_loader_deleted)"
    using Update_existing [OF oi' t' pc j', of "[''name'' \<mapsto> ''Grace'']" None]
    by (simp add: newDeleteOperation_def)
  show ?thesis using oi t pc j u c m j' d by simp
qed

text \<open>
  C4 as stated fails for an insert-only dialect: the journal holds the Insert of row 42,
  which is no Delete, and the Update returns an error and merges nothing.
\<close>

theorem Update_insert_only_counterexample:
  "map_option opType (journalGet ex_loader_insert_only ''users'' (createRowUniqueID ex_pk))
     = Some OperationTypeInsert \<and>
   Update ex_loader_insert_only ''users'' ex_pk [''name'' \<mapsto> ''Grace''] None
     = (Some ErrUpdateNotSupported, ex_loader_insert_only)"
  by (simp add: loader_defs ex_defs)

subsection \<open>C5: a second Insert of a pending row\<close>

text \<open>
  C5: when the journal holds a pending operation of any kind for the row id of \<open>pk\<close> in
  table \<open>t\<close>, \<^verbatim>\<open>Insert(t, pk, data, rb)\<close> returns an error and leaves the Loader, its
  journal included, exactly as it was.
\<close>

theorem Insert_pending_row_rejected:
  "journalGet l t (createRowUniqueID pk) = Some op \<Longrightarrow>
     \<exists>e. Insert l t pk data rb = (Some e, l)"
proof -
  assume j: "journalGet l t (createRowUniqueID pk) = Some op"
  then obtain entry where e: "om_Get (entries l) t = Some entry"
      and o: "om_Get entry (createRowUniqueID pk) = Some op"
    by (auto simp: journalGet_def split: option.splits)
  show ?thesis
  proof (cases "tables l t")
    case None
    then show ?thesis by (simp add: Insert_def)
  next
    case (Some table)
    then show ?thesis using e o by (simp add: Insert_def getEntry_found)
  qed
qed

theorem Insert_pending_row_rejected_witness:
  "journalGet ex_loader_deleted ''users'' (createRowUniqueID ex_pk)
     = Some (newDeleteOperation ex_users ex_pk None) \<and>
   Insert ex_loader_deleted ''users'' ex_pk [''name'' \<mapsto> ''Ada''] None
     = (Some (ErrAlreadyScheduledForInsertion ''users'' ex_pk), ex_loader_deleted)"
proof -
  have j: "journalGet ex_loader_deleted ''users'' (createRowUniqueID ex_pk)
     = Some (newDeleteOperation ex_users ex_pk None)"
    by (simp add: loader_defs ex_defs)
  from Insert_pending_row_rejected [OF j, of "[''name'' \<mapsto> ''Ada'']" None]
  obtain e where i: "Insert ex_loader_deleted ''users'' ex_pk [''name'' \<mapsto> ''Ada''] None
     = (Some e, ex_loader_deleted)" by blast
  have "fst (Insert ex_loader_deleted ''users'' ex_pk [''name'' \<mapsto> ''Ada''] None)
     = Some (ErrAlreadyScheduledForInsertion ''users'' ex_pk)"
    by (simp add: loader_defs ex_defs)
  with i j show ?thesis by simp
qed

subsection \<open>C6: when the SQL sinker flushes\<close>

text \<open>
  C6: for a block that the SQL sinker handles up to its flush decision (the module name
  and the message type are accepted, the payload decodes, its changes are applied without
  error, and the liveness flag is there), \<^verbatim>\<open>Loader.Flush\<close> is called, once, exactly when
  \<^verbatim>\<open>data.Clock.Number mod M = 0\<close>, where \<open>M\<close> is 1 for a live block, otherwise the flush
  interval when it is positive, otherwise 1000; \<open>M\<close> is never zero. The call carries the
  cursor, the final block height and the journal as the block's changes left it.
\<close>

theorem HandleBlockScopedData_flushes_iff:
  assumes nm: "data_OutputName data = sql_OutputModuleName s"
    and ty: "data_MessageIs data \<or>
       data_TypeUrl data = ''type.googleapis.com/sf.substreams.database.v1.DatabaseChanges''"
    and dec: "data_Unmarshal data = Some dbChanges"
    and app: "applyDatabaseChanges (sql_loader s) dbChanges (data_ClockNumber data)
       (data_FinalBlockHeight data) = (Ok (), l1)"
    and M: "M = (if live then 1
                 else if 0 <s flushInterval (sql_loader s) then flushInterval (sql_loader s)
                 else 1000)"
  shows "M \<noteq> 0 \<and>
     (\<exists>r s'. HandleBlockScopedData s data (Some live) cursor = (r, s') \<and>
        (data_ClockNumber data mod M = 0 \<longrightarrow>
           sql_transactions s' = sql_transactions s @
             [\<lparr>flush_ModuleHash = sql_OutputModuleHash s, flush_Cursor = cursor,
               flush_FinalBlock = data_FinalBlockHeight data,
               flush_Operations = journalOps l1\<rparr>]) \<and>
        (data_ClockNumber data mod M \<noteq> 0 \<longrightarrow>
           sql_transactions s' = sql_transactions s \<and> r = Ok ()))"
proof -
  have fi: "flushInterval l1 = flushInterval (sql_loader s)"
    using app by (rule applyDatabaseChanges_flushInterval)
  have bm: "batchBlockModulo l1 (Some live) = Ok M"
    by (simp add: batchBlockModulo_def fi M LIVE_BLOCK_FLUSH_EACH_def
        HISTORICAL_BLOCK_FLUSH_EACH_def)
  have nz: "M \<noteq> 0" using bm by (rule batchBlockModulo_nonzero)
  have gm: "go_mod (data_ClockNumber data) M = Ok (data_ClockNumber data mod M)"
    using nz by (simp add: go_mod_def)
  have h: "HandleBlockScopedData s data (Some live) cursor =
     (if data_ClockNumber data mod M = 0
      then (case Flush (s\<lparr>sql_loader := l1\<rparr>) cursor (data_FinalBlockHeight data) of
              (Ok rowFlushedCount, s2) \<Rightarrow> (Ok (), s2)
            | (Error err, s2) \<Rightarrow> (Error (ErrFailedToFlush err), s2)
            | (Panic p, s2) \<Rightarrow> (Panic p, s2))
      else (Ok (), s\<lparr>sql_loader := l1\<rparr>))"
    using nm ty dec app bm gm by (auto simp: HandleBlockScopedData_def Let_def)
  show ?thesis
  proof (cases "data_ClockNumber data mod M = 0")
    case True
    then show ?thesis using nz h by (auto simp: Flush_def Let_def)
  next
    case False
    then show ?thesis using nz h by simp
  qed
qed

text \<open>
  A historical block with flush interval 10: block 100 flushes, block 101 does not.
\<close>

theorem HandleBlockScopedData_flushes_iff_witness:
  "(100 :: uint64) mod 10 = 0 \<and>
   length (sql_transactions (snd (HandleBlockScopedData ex_sql
      (ex_data [ex_change TableChange_CREATE] 100 90) (Some False) (ex_cursor 100)))) = 1 \<and>
   (101 :: uint64) mod 10 \<noteq> 0 \<and>
   sql_transactions (snd (HandleBlockScopedData ex_sql
      (ex_data [ex_change TableChange_CREATE] 101 90) (Some False) (ex_cursor 101))) = [] \<and>
   fst (HandleBlockScopedData ex_sql
      (ex_data [ex_change TableChange_CREATE] 101 90) (Some False) (ex_cursor 101)) = Ok ()"
proof -
  let ?d = "\<lambda>b. ex_data [ex_change TableChange_CREATE] b 90"
  let ?l = "\<lambda>b. snd (applyDatabaseChanges ex_loader [ex_change TableChange_CREATE] b 90)"
  have nm: "data_OutputName (?d b) = sql_OutputModuleName ex_sql" for b
    by (simp add: ex_defs)
  have ty: "data_MessageIs (?d b) \<or> data_TypeUrl (?d b)
      = ''type.googleapis.com/sf.substreams.database.v1.DatabaseChanges''" for b
    by (simp add: ex_defs)
  have dec: "data_Unmarshal (?d b) = Some [ex_change TableChange_CREATE]" for b
    by (simp add: ex_defs)
  have app: "applyDatabaseChanges (sql_loader ex_sql) [ex_change TableChange_CREATE]
      (data_ClockNumber (?d b)) (data_FinalBlockHeight (?d b)) = (Ok (), ?l b)" for b
    by (simp add: loader_defs ex_defs)
  have M: "(10 :: uint64) = (if False then 1
      else if 0 <s flushInterval (sql_loader ex_sql) then flushInterval (sql_loader ex_sql)
      else 1000)"
    by (simp add: ex_defs word_sless_alt)
  have c100: "data_ClockNumber (?d 100) mod 10 = 0" and c101: "data_ClockNumber (?d 101) mod 10 \<noteq> 0"
    by (simp_all add: ex_defs)
  have t0: "sql_transactions ex_sql = []"
    by (simp add: ex_defs)
  from HandleBlockScopedData_flushes_iff [OF nm ty dec app M, of 100 "ex_cursor 100"] c100 t0
  have a: "length (sql_transactions (snd (HandleBlockScopedData ex_sql (?d 100) (Some False)
      (ex_cursor 100)))) = 1"
    by auto
  from HandleBlockScopedData_flushes_iff [OF nm ty dec app M, of 101 "ex_cursor 101"] c101 t0
  have b: "sql_transactions (snd (HandleBlockScopedData ex_sql (?d 101) (Some False)
      (ex_cursor 101))) = [] \<and>
    fst (HandleBlockScopedData ex_sql (?d 101) (Some False) (ex_cursor 101)) = Ok ()"
    by auto
  show ?thesis using a b by simp
qed

subsection \<open>C7: the row id\<close>

text \<open>
  C7: \<^verbatim>\<open>createRowUniqueID\<close> depends on the primary-key map alone. For a map with distinct
  keys, in whatever order its entries are visited, the result is the reference
  definition \<open>rowId_spec\<close> of the map (the bare value of a singleton, otherwise the values
  in the order of their sorted column names joined with a slash), and two visiting orders
  of the same entries give the same id.
\<close>

theorem createRowUniqueID_reference:
  assumes "wf_gomap m"
  shows "createRowUniqueID m = rowId_spec (map_of m) \<and>
         (\<forall>m'. wf_gomap m' \<and> set m' = set m \<longrightarrow> createRowUniqueID m' = createRowUniqueID m)"
proof (intro conjI allI impI)
  show "createRowUniqueID m = rowId_spec (map_of m)"
    using assms by (simp add: wf_gomap_def createRowUniqueID_spec)
next
  fix m'
  assume a: "wf_gomap m' \<and> set m' = set m"
  then have "map_of m' = map_of m"
    using assms by (simp add: wf_gomap_def map_of_inject_set)
  then show "createRowUniqueID m' = createRowUniqueID m"
    using a assms by (simp add: wf_gomap_def createRowUniqueID_spec)
qed

theorem createRowUniqueID_reference_witness:
  "wf_gomap [(''b'', ''2''), (''a'', ''1'')] \<and>
   createRowUniqueID [(''b'', ''2''), (''a'', ''1'')]
     = rowId_spec (map_of [(''b'', ''2''), (''a'', ''1'')]) \<and>
   createRowUniqueID [(''b'', ''2''), (''a'', ''1'')] = ''1/2'' \<and>
   createRowUniqueID [(''a'', ''1''), (''b'', ''2'')]
     = createRowUniqueID [(''b'', ''2''), (''a'', ''1'')] \<and>
   createRowUniqueID [(''id'', ''42'')] = rowId_spec (map_of [(''id'', ''42'')]) \<and>
   createRowUniqueID [(''id'', ''42'')] = ''42''"
proof -
  have w: "wf_gomap [(''b'', ''2''), (''a'', ''1'')]" and w1: "wf_gomap [(''id'', ''42'')]"
    and w': "wf_gomap [(''a'', ''1''), (''b'', ''2'')] \<and>
      set [(''a'', ''1''), (''b'', ''2'')] = set [(''b'', ''2''), (''a'', ''1'')]"
    by (auto simp: wf_gomap_def)
  have v: "createRowUniqueID [(''b'', ''2''), (''a'', ''1'')] = ''1/2''"
    by (simp add: index_gomap_def)
  have r: "createRowUniqueID [(''b'', ''2''), (''a'', ''1'')]
      = rowId_spec (map_of [(''b'', ''2''), (''a'', ''1'')])"
    and p: "\<forall>m'. wf_gomap m' \<and> set m' = set [(''b'', ''2''), (''a'', ''1'')] \<longrightarrow>
      createRowUniqueID m' = createRowUniqueID [(''b'', ''2''), (''a'', ''1'')]"
    using createRowUniqueID_reference [OF w] by blast+
  have q: "createRowUniqueID [(''a'', ''1''), (''b'', ''2'')]
      = createRowUniqueID [(''b'', ''2''), (''a'', ''1'')]"
    using p w' by blast
  have r1: "createRowUniqueID [(''id'', ''42'')] = rowId_spec (map_of [(''id'', ''42'')])"
    using createRowUniqueID_reference [OF w1] by blast
  have v1: "createRowUniqueID [(''id'', ''42'')] = ''42''"
    by simp
  show ?thesis
    by (intro conjI) (rule w r v q r1 v1)+
qed

subsection \<open>C8: a failed mutation leaves the Loader as it was\<close>

text \<open>
  C8: whenever \<^verbatim>\<open>Insert\<close>, \<^verbatim>\<open>Update\<close> or \<^verbatim>\<open>Delete\<close> returns an error, whatever the error,
  the Loader after the call is the Loader before it: the journal with its per-table maps
  and the entry count are unchanged.
\<close>

theorem mutation_error_leaves_Loader:
  "(Insert l t pk d rb = (Some e, l') \<longrightarrow> l' = l) \<and>
   (Update l t pk d rb = (Some e, l') \<longrightarrow> l' = l) \<and>
   (Delete l t pk rb = (Some e, l') \<longrightarrow> l' = l)"
  using Insert_error_unchanged Update_error_unchanged Delete_error_unchanged by blast

text \<open>
  A second Insert of row 42, an Update after its Delete, and a Delete in a table that is
  not registered and so has no sub-journal yet.
\<close>

theorem mutation_error_leaves_Loader_witness:
  "Insert ex_loader_inserted ''users'' ex_pk Map.empty None
     = (Some (ErrAlreadyScheduledForInsertion ''users'' ex_pk), ex_loader_inserted) \<and>
   Update ex_loader_deleted ''users'' ex_pk Map.empty None
     = (Some (ErrUpdateScheduledToBeDeleted ex_pk), ex_loader_deleted) \<and>
   Delete ex_loader ''orders'' ex_pk None = (Some (ErrUnknownTable ''orders''), ex_loader)"
proof -
  have i: "fst (Insert ex_loader_inserted ''users'' ex_pk Map.empty None)
      = Some (ErrAlreadyScheduledForInsertion ''users'' ex_pk)"
    and u: "fst (Update ex_loader_deleted ''users'' ex_pk Map.empty None)
      = Some (ErrUpdateScheduledToBeDeleted ex_pk)"
    and d: "fst (Delete ex_loader ''orders'' ex_pk None) = Some (ErrUnknownTable ''orders'')"
    by (simp_all add: loader_defs ex_defs)
  have "snd (Insert ex_loader_inserted ''users'' ex_pk Map.empty None) = ex_loader_inserted"
    using i mutation_error_leaves_Loader by (metis prod.collapse)
  moreover have "snd (Update ex_loader_deleted ''users'' ex_pk Map.empty None) = ex_loader_deleted"
    using u mutation_error_leaves_Loader by (metis prod.collapse)
  moreover have "snd (Delete ex_loader ''orders'' ex_pk None) = ex_loader"
    using d mutation_error_leaves_Loader by (metis prod.collapse)
  ultimately show ?thesis using i u d by (metis prod.collapse)
qed

subsection \<open>C9: the modulo by the bundle size\<close>

text \<open>
  C9: \<^verbatim>\<open>BulkSinker.HandleBlockScopedData\<close> computes
  \<^verbatim>\<open>cursor.Block().Num() % s.bundleSize\<close> with no check of the divisor. With a positive bundle
  size the modulo has a value for every block and the handler never panics with a division
  by zero; with bundle size zero the modulo panics for every block number, and so does the
  handler on every block that reaches the check (one that is accepted, decodes and whose
  changes are dumped with neither an error nor a panic).
\<close>

theorem bundleSize_modulo:
  "(0 < bundleSize s \<longrightarrow>
      go_mod (cursor_BlockNum cursor) (bundleSize s)
        = Ok (cursor_BlockNum cursor mod bundleSize s) \<and>
      fst (BulkSinker_HandleBlockScopedData CSVEncode s data isLive cursor)
        \<noteq> Panic IntegerDivideByZero) \<and>
   (bundleSize s = 0 \<longrightarrow>
      go_mod (cursor_BlockNum cursor) (bundleSize s) = Panic IntegerDivideByZero \<and>
      (data_OutputName data = bulk_OutputModuleName s \<and>
       (data_MessageIs data \<or>
        data_TypeUrl data = ''type.googleapis.com/sf.substreams.database.v1.DatabaseChanges'') \<and>
       data_Unmarshal data = Some dbChanges \<and>
       fst (dumpDatabaseChangesIntoCSV CSVEncode s dbChanges) = Ok () \<longrightarrow>
       fst (BulkSinker_HandleBlockScopedData CSVEncode s data isLive cursor)
         = Panic IntegerDivideByZero))"
proof (intro conjI impI)
  assume pos: "0 < bundleSize s"
  then show "go_mod (cursor_BlockNum cursor) (bundleSize s)
        = Ok (cursor_BlockNum cursor mod bundleSize s)"
    by (auto simp: go_mod_def)
  show "fst (BulkSinker_HandleBlockScopedData CSVEncode s data isLive cursor)
        \<noteq> Panic IntegerDivideByZero"
    using pos
    by (auto simp: BulkSinker_HandleBlockScopedData_def go_mod_def Let_def
        split: option.splits prod.splits result.splits if_splits
        dest: dump_panic dump_bundleSize)
next
  assume z: "bundleSize s = 0"
  then show "go_mod (cursor_BlockNum cursor) (bundleSize s) = Panic IntegerDivideByZero"
    by (simp add: go_mod_def)
  assume r: "data_OutputName data = bulk_OutputModuleName s \<and>
       (data_MessageIs data \<or>
        data_TypeUrl data = ''type.googleapis.com/sf.substreams.database.v1.DatabaseChanges'') \<and>
       data_Unmarshal data = Some dbChanges \<and>
       fst (dumpDatabaseChangesIntoCSV CSVEncode s dbChanges) = Ok ()"
  then obtain s1 where d: "dumpDatabaseChangesIntoCSV CSVEncode s dbChanges = (Ok (), s1)"
    by (cases "dumpDatabaseChangesIntoCSV CSVEncode s dbChanges") auto
  have "bundleSize s1 = 0" using dump_bundleSize [OF d] z by simp
  then show "fst (BulkSinker_HandleBlockScopedData CSVEncode s data isLive cursor)
         = Panic IntegerDivideByZero"
    using r d by (auto simp: BulkSinker_HandleBlockScopedData_def go_mod_def)
qed

text \<open>
  Bundle size 1000 at block 2000: the modulo is 0 and the handler returns normally.
  Bundle size 0 at block 100: the handler panics after the row was dumped.
\<close>

theorem bundleSize_modulo_witness:
  "0 < bundleSize (ex_bulk 1000) \<and>
   go_mod (cursor_BlockNum (ex_cursor 2000)) (bundleSize (ex_bulk 1000)) = Ok 0 \<and>
   fst (BulkSinker_HandleBlockScopedData ex_CSVEncode (ex_bulk 1000)
          (ex_data [ex_change TableChange_CREATE] 2000 1990) (Some False) (ex_cursor 2000))
     = Ok () \<and>
   bundleSize (ex_bulk 0) = 0 \<and>
   fst (dumpDatabaseChangesIntoCSV ex_CSVEncode (ex_bulk 0) [ex_change TableChange_CREATE])
     = Ok () \<and>
   fst (BulkSinker_HandleBlockScopedData ex_CSVEncode (ex_bulk 0)
          (ex_data [ex_change TableChange_CREATE] 100 90) (Some False) (ex_cursor 100))
     = Panic IntegerDivideByZero"
proof -
  have p: "0 < bundleSize (ex_bulk 1000)" and z: "bundleSize (ex_bulk 0) = 0"
    by (simp_all add: ex_defs)
  have r: "data_OutputName (ex_data [ex_change TableChange_CREATE] 100 90)
        = bulk_OutputModuleName (ex_bulk 0) \<and>
      (data_MessageIs (ex_data [ex_change TableChange_CREATE] 100 90) \<or>
       data_TypeUrl (ex_data [ex_change TableChange_CREATE] 100 90)
         = ''type.googleapis.com/sf.substreams.database.v1.DatabaseChanges'') \<and>
      data_Unmarshal (ex_data [ex_change TableChange_CREATE] 100 90)
        = Some [ex_change TableChange_CREATE] \<and>
      fst (dumpDatabaseChangesIntoCSV ex_CSVEncode (ex_bulk 0) [ex_change TableChange_CREATE])
        = Ok ()"
    by (simp add: loader_defs ex_defs)
  have m: "cursor_BlockNum (ex_cursor 2000) mod bundleSize (ex_bulk 1000) = 0"
    by (simp add: ex_defs)
  have ok: "fst (BulkSinker_HandleBlockScopedData ex_CSVEncode (ex_bulk 1000)
          (ex_data [ex_change TableChange_CREATE] 2000 1990) (Some False) (ex_cursor 2000))
     = Ok ()"
    by (simp add: loader_defs sinker_defs ex_defs)
  from bundleSize_modulo [where s = "ex_bulk 1000" and cursor = "ex_cursor 2000"] p m
  have a: "go_mod (cursor_BlockNum (ex_cursor 2000)) (bundleSize (ex_bulk 1000)) = Ok 0"
    by simp
  from bundleSize_modulo [where s = "ex_bulk 0" and cursor = "ex_cursor 100"
      and data = "ex_data [ex_change TableChange_CREATE] 100 90"
      and dbChanges = "[ex_change TableChange_CREATE]"
      and CSVEncode = ex_CSVEncode and isLive = "Some False"] z r
  have b: "fst (BulkSinker_HandleBlockScopedData ex_CSVEncode (ex_bulk 0)
          (ex_data [ex_change TableChange_CREATE] 100 90) (Some False) (ex_cursor 100))
     = Panic IntegerDivideByZero"
    by blast
  show ?thesis using p z r ok a b by simp
qed

subsection \<open>C10: the primary key of a single-string key\<close>

text \<open>
  C10: for a registered table, \<^verbatim>\<open>GetPrimaryKey(t, pk)\<close> returns an error exactly when the
  table has no primary column or more than one, and otherwise returns the map of one
  entry from the name of the single primary column to \<open>pk\<close>.
\<close>

theorem GetPrimaryKey_error_iff:
  "tables l t = Some ti \<Longrightarrow>
     ((\<exists>e. GetPrimaryKey l t pk = Error e) \<longleftrightarrow>
        (length (ti_primaryColumns ti) = 0 \<or> 1 < length (ti_primaryColumns ti))) \<and>
     (length (ti_primaryColumns ti) = 1 \<longrightarrow>
        GetPrimaryKey l t pk = Ok [(ci_name (hd (ti_primaryColumns ti)), pk)])"
  by (auto simp: GetPrimaryKey_def split: list.splits)

theorem GetPrimaryKey_error_iff_witness:
  "tables ex_loader ''users'' = Some ex_users \<and>
   length (ti_primaryColumns ex_users) = 1 \<and>
   GetPrimaryKey ex_loader ''users'' ''42'' = Ok [(''id'', ''42'')] \<and>
   tables (ex_loader\<lparr>tables := [''pairs'' \<mapsto> ex_users\<lparr>ti_primaryColumns := [ex_id, ex_name]\<rparr>]\<rparr>)
     ''pairs'' = Some (ex_users\<lparr>ti_primaryColumns := [ex_id, ex_name]\<rparr>) \<and>
   GetPrimaryKey
     (ex_loader\<lparr>tables := [''pairs'' \<mapsto> ex_users\<lparr>ti_primaryColumns := [ex_id, ex_name]\<rparr>]\<rparr>)
     ''pairs'' ''42'' = Error (ErrSinglePrimaryKeyButComposite [''id'', ''name''])"
proof -
  let ?ti = "ex_users\<lparr>ti_primaryColumns := [ex_id, ex_name]\<rparr>"
  let ?l = "ex_loader\<lparr>tables := [''pairs'' \<mapsto> ?ti]\<rparr>"
  have t: "tables ex_loader ''users'' = Some ex_users"
    and n: "length (ti_primaryColumns ex_users) = 1"
    and h: "ci_name (hd (ti_primaryColumns ex_users)) = ''id''"
    and t2: "tables ?l ''pairs'' = Some ?ti"
    and n2: "1 < length (ti_primaryColumns ?ti)"
    by (simp_all add: ex_defs)
  from GetPrimaryKey_error_iff [OF t, of "''42''"] n h
  have a: "GetPrimaryKey ex_loader ''users'' ''42'' = Ok [(''id'', ''42'')]" by simp
  from GetPrimaryKey_error_iff [OF t2, of "''42''"] n2
  obtain e where e: "GetPrimaryKey ?l ''pairs'' ''42'' = Error e" by blast
  have "GetPrimaryKey ?l ''pairs'' ''42''
      = Error (ErrSinglePrimaryKeyButComposite [''id'', ''name''])"
    by (simp add: GetPrimaryKey_def ex_defs)
  then show ?thesis using t n a t2 by simp
qed

end
